theory Spec2Isabelle
  imports Main "HOL-Library.Word"
begin

unbundle bit_operations_syntax

section \<open>sconv: the stream recoder of \<^verbatim>\<open>src/main.cpp\<close>\<close>

text \<open>
  The program parses its options with the C library's \<^verbatim>\<open>getopt_long\<close>, opens an
  input and an output descriptor, converts the input chunk by chunk with \<^verbatim>\<open>iconv\<close>
  and, when an output path was given, publishes a temporary file by \<^verbatim>\<open>rename\<close>.
  Everything the program does is a call into the C library or the kernel, so the
  embedding has two layers: the functions of \<^verbatim>\<open>main.cpp\<close> (\<open>print_help\<close>,
  \<open>parse_args\<close>, \<open>get_basedir\<close>, \<open>main\<close>), translated statement by statement, and
  the calls they make, each modelled by its documented contract over an explicit
  state. What the environment decides (how many bytes a read delivers, whether a write
  is short, whether \<^verbatim>\<open>chmod\<close> fails, what the converter produces) is read
  from the record \<open>env\<close> or from schedules in the state.
\<close>

subsection \<open>Data\<close>

type_synonym byte = "8 word"

text \<open>A regular file: its bytes and its permission bits.\<close>

record regfile =
  content :: "byte list"
  perm :: nat

type_synonym filesystem = "string \<rightharpoonup> regfile"

text \<open>
  What successive \<^verbatim>\<open>read\<close> calls on a descriptor will find: a batch of bytes that
  has arrived (an empty batch reads as end of file, as on a terminal), or an error.
  After the last event the descriptor is at end of file.
\<close>

datatype rd_event = Bytes "byte list" | Rd_error

text \<open>What the next \<^verbatim>\<open>write\<close> will do, when it does not write everything.\<close>

datatype wr_outcome = Wr_short nat | Wr_error

datatype fd = Stdout | Tmp_fd string

text \<open>The calls into the kernel and the converter that the program issues.\<close>

datatype syscall =
    Sys_open string
  | Sys_mkstemp string
  | Sys_read nat
  | Sys_iconv_open
  | Sys_iconv "byte list" nat
  | Sys_write fd "byte list"
  | Sys_close fd
  | Sys_chmod string nat
  | Sys_rename string string

text \<open>
  The state threaded through the program: the global \<open>outfile\<close> of \<^verbatim>\<open>main.cpp\<close>,
  \<^verbatim>\<open>argv\<close> as the C library's option scanner holds it (\<^verbatim>\<open>argv[0]\<close>, the elements
  already taken as options, the non-options passed over, the elements not yet looked
  at, and the rest of a cluster of short options), the two standard streams, the file system, the schedule
  of write outcomes, the system calls issued so far and the file system as it stood
  after each call that changed it.
\<close>

record state =
  outfile :: string
  argv0 :: string
  taken :: "string list"
  skipped :: "string list"
  rest :: "string list"
  nextchar :: string
  stdout :: "byte list"
  stderr :: string
  fs :: filesystem
  wr_sched :: "wr_outcome list"
  trace :: "syscall list"
  hist :: "filesystem list"

text \<open>
  What the platform and the environment fix for one run: whether
  \<^verbatim>\<open>POSIXLY_CORRECT\<close> is set, \<^verbatim>\<open>sizeof(wchar_t)\<close>, whether \<^verbatim>\<open>iconv_open\<close>
  knows the two encodings, the converter itself (from a chunk and the capacity of the
  output buffer to the bytes it stores and the number of input bytes it leaves
  unconsumed), the random values \<^verbatim>\<open>mkstemp\<close> draws, whether the directory refuses
  the new file, whether \<^verbatim>\<open>chmod\<close> and \<^verbatim>\<open>rename\<close> fail, and what standard input
  delivers.
\<close>

record env =
  posixly_correct :: bool
  sizeof_wchar_t :: nat
  iconv_open_ok :: bool
  iconv :: "byte list \<Rightarrow> nat \<Rightarrow> byte list \<times> nat"
  tmp_rand :: "nat list"
  tmp_denied :: bool
  chmod_fails :: bool
  rename_fails :: bool
  stdin :: "rd_event list"

text \<open>
  A C++ exception is a value: \<open>Runtime_error\<close> carries \<^verbatim>\<open>what()\<close>; \<open>Other_exception\<close>
  stands for anything not derived from \<^verbatim>\<open>std::exception\<close>. A call returns, ends
  the process (\<^verbatim>\<open>std::exit\<close>) or throws.
\<close>

datatype exn = Runtime_error string | Other_exception

datatype 'a result = Return 'a | Exit int | Throw exn

subsection \<open>Text\<close>

definition nl :: string where
  "nl = [CHR 0x0A]"

definition sq :: string where
  "sq = [CHR 0x27]"

fun show_nat :: "nat \<Rightarrow> string" where
  "show_nat n =
     (if n < 10 then [''0123456789'' ! n]
      else show_nat (n div 10) @ [''0123456789'' ! (n mod 10)])"

definition show_int :: "int \<Rightarrow> string" where
  "show_int i = (if i < 0 then ''-'' @ show_nat (nat (- i)) else show_nat (nat i))"

definition cerr :: "string \<Rightarrow> state \<Rightarrow> state" where
  "cerr txt s = s\<lparr>stderr := stderr s @ txt\<rparr>"

definition VERSION :: string where
  "VERSION = ''0.0.1''"

definition print_help :: "string \<Rightarrow> string \<Rightarrow> state \<Rightarrow> state" where
  "print_help prog version s =
     cerr (''Usage: '' @ prog @ '' [options] (input file)'' @ nl @
           ''Executes sconv '' @ version @ nl @ nl @
           ''Converts an input file (or STDIN when not specified) from a given format'' @ nl @
           ''to another file (or STDOUt when not set)'' @ nl @ nl @
           ''-o, --output-file f Specifies output file (f) to be written; when not set, STDOUT'' @ nl @
           ''                    is used as output'' @ nl @
           ''    --help          prints this help and exit'' @ nl @ nl) s"

subsection \<open>The C library's option scanner\<close>

text \<open>
  \<^verbatim>\<open>struct option\<close> of \<^verbatim>\<open>getopt.h\<close>; \<open>flag\<close> is a pointer, \<open>None\<close> the null
  pointer. The table \<open>long_options\<close> is the one of \<open>parse_args\<close>; its \<open>val\<close>
  \<^verbatim>\<open>'o'\<close> is the character code 111.
\<close>

record long_option =
  name :: string
  has_arg :: nat
  flag :: "nat option"
  val :: int

definition no_argument :: nat where
  "no_argument = 0"

definition required_argument :: nat where
  "required_argument = 1"

definition long_options :: "long_option list" where
  "long_options =
     [\<lparr>name = ''output-file'', has_arg = required_argument, flag = None, val = 111\<rparr>,
      \<lparr>name = ''help'', has_arg = no_argument, flag = None, val = 0\<rparr>]"

text \<open>
  What one call of \<^verbatim>\<open>getopt_long\<close> hands back: its return value, the index it
  stores through \<^verbatim>\<open>longind\<close> (\<open>None\<close> when it stores nothing) and \<^verbatim>\<open>optarg\<close>.
\<close>

record getopt_ret =
  code :: int
  longind :: "nat option"
  optarg :: string

definition getopt_done :: getopt_ret where
  "getopt_done = \<lparr>code = - 1, longind = None, optarg = []\<rparr>"

text \<open>
  The scanner is modelled after the GNU C library, which the program links against
  (\<^verbatim>\<open>getopt_long\<close> is its extension), for option strings of plain letters with at
  most one colon each, as \<^verbatim>\<open>"o:"\<close> is. The program never clears \<^verbatim>\<open>opterr\<close> and
  the option string does not start with a colon, so every error of the scanner is
  printed on standard error, after \<^verbatim>\<open>argv[0]\<close>, before \<^verbatim>\<open>'?'\<close> (code 63) is
  returned.
\<close>

definition getopt_error :: "string \<Rightarrow> string \<Rightarrow> state \<Rightarrow> getopt_ret \<times> state" where
  "getopt_error prog msg s =
     (\<lparr>code = 63, longind = None, optarg = []\<rparr>, cerr (prog @ '': '' @ msg @ nl) s)"

text \<open>
  An element of \<^verbatim>\<open>argv\<close> is a non-option when it does not start with \<^verbatim>\<open>-\<close> or is
  \<^verbatim>\<open>-\<close> alone.
\<close>

fun nonoption_p :: "string \<Rightarrow> bool" where
  "nonoption_p [] = True"
| "nonoption_p (c # cs) = (c \<noteq> CHR ''-'' \<or> cs = [])"

text \<open>
  The next character \<open>c\<close> of a cluster of short options, \<open>nc\<close> the characters after
  it. A character of the option string followed by a colon takes an argument: the rest
  of the cluster when there is one, else the next element of \<^verbatim>\<open>argv\<close>, whatever it
  looks like.
\<close>

definition short_option :: "string \<Rightarrow> string \<Rightarrow> char \<Rightarrow> string \<Rightarrow> state \<Rightarrow> getopt_ret \<times> state" where
  "short_option prog optstring c nc s =
     (case dropWhile (\<lambda>x. x \<noteq> c) optstring of
        [] \<Rightarrow> getopt_error prog (''invalid option -- '' @ sq @ [c] @ sq) (s\<lparr>nextchar := nc\<rparr>)
      | _ # temp \<Rightarrow>
          if c = CHR '':'' \<or> c = CHR '';'' then
            getopt_error prog (''invalid option -- '' @ sq @ [c] @ sq) (s\<lparr>nextchar := nc\<rparr>)
          else if take 1 temp = '':'' then
            (if nc \<noteq> [] then
               (\<lparr>code = of_char c, longind = None, optarg = nc\<rparr>, s\<lparr>nextchar := []\<rparr>)
             else
               (case rest s of
                  [] \<Rightarrow> getopt_error prog (''option requires an argument -- '' @ sq @ [c] @ sq)
                          (s\<lparr>nextchar := []\<rparr>)
                | a # r \<Rightarrow>
                    (\<lparr>code = of_char c, longind = None, optarg = a\<rparr>,
                     s\<lparr>nextchar := [], taken := taken s @ [a], rest := r\<rparr>)))
          else (\<lparr>code = of_char c, longind = None, optarg = []\<rparr>, s\<lparr>nextchar := nc\<rparr>))"

text \<open>
  A long option, \<open>nextch\<close> being the element after its \<^verbatim>\<open>--\<close>: the name runs to the
  first \<^verbatim>\<open>=\<close>; an exact match wins, else the name may abbreviate one entry (or
  several that do not differ in \<open>has_arg\<close>, \<open>flag\<close> and \<open>val\<close>). An entry with a
  null \<open>flag\<close> returns its \<open>val\<close>.
\<close>

definition long_matches :: "long_option list \<Rightarrow> string \<Rightarrow> nat list" where
  "long_matches longopts nm =
     (case filter (\<lambda>i. name (longopts ! i) = nm) [0..<length longopts] of
        i # _ \<Rightarrow> [i]
      | [] \<Rightarrow> filter (\<lambda>i. take (length nm) (name (longopts ! i)) = nm) [0..<length longopts])"

definition same_option :: "long_option \<Rightarrow> long_option \<Rightarrow> bool" where
  "same_option p q = (has_arg p = has_arg q \<and> flag p = flag q \<and> val p = val q)"

definition process_long_option :: "string \<Rightarrow> long_option list \<Rightarrow> string \<Rightarrow> state \<Rightarrow> getopt_ret \<times> state" where
  "process_long_option prog longopts nextch s =
     (let nm = takeWhile (\<lambda>x. x \<noteq> CHR ''='') nextch in
      case long_matches longopts nm of
        [] \<Rightarrow> getopt_error prog (''unrecognized option '' @ sq @ ''--'' @ nextch @ sq) s
      | i # others \<Rightarrow>
          let p = longopts ! i;
              ambig = filter (\<lambda>j. \<not> same_option p (longopts ! j)) others;
              ret = (if flag p \<noteq> None then 0 else val p)
          in
          if ambig \<noteq> [] then
            getopt_error prog
              (''option '' @ sq @ ''--'' @ nextch @ sq @ '' is ambiguous; possibilities:'' @
               concat (map (\<lambda>j. '' '' @ sq @ ''--'' @ name (longopts ! j) @ sq) (i # ambig))) s
          else if length nm < length nextch then
            (if has_arg p \<noteq> no_argument then
               (\<lparr>code = ret, longind = Some i, optarg = drop (Suc (length nm)) nextch\<rparr>, s)
             else
               getopt_error prog
                 (''option '' @ sq @ ''--'' @ name p @ sq @ '' doesn'' @ sq @ ''t allow an argument'') s)
          else if has_arg p = required_argument then
            (case rest s of
               [] \<Rightarrow> getopt_error prog
                       (''option '' @ sq @ ''--'' @ name p @ sq @ '' requires an argument'') s
             | a # r \<Rightarrow>
                 (\<lparr>code = ret, longind = Some i, optarg = a\<rparr>,
                  s\<lparr>taken := taken s @ [a], rest := r\<rparr>))
          else (\<lparr>code = ret, longind = Some i, optarg = []\<rparr>, s))"

text \<open>
  One element \<open>a\<close> of \<^verbatim>\<open>argv\<close> that is not a non-option, \<open>r\<close> the elements after
  it: \<^verbatim>\<open>--\<close> alone ends the options and leaves everything after it as operands;
  \<^verbatim>\<open>--x\<close> is a long option; anything else starts a cluster of short options.
\<close>

fun scan_element :: "string \<Rightarrow> string \<Rightarrow> long_option list \<Rightarrow> string \<Rightarrow> string list \<Rightarrow> state \<Rightarrow> getopt_ret \<times> state" where
  "scan_element prog optstring longopts (d # c # nc) r s =
     (if c = CHR ''-'' then
        (if nc = [] then
           (getopt_done, s\<lparr>taken := taken s @ [d # c # nc], skipped := skipped s @ r, rest := []\<rparr>)
         else process_long_option prog longopts nc (s\<lparr>taken := taken s @ [d # c # nc], rest := r\<rparr>))
      else short_option prog optstring c nc (s\<lparr>taken := taken s @ [d # c # nc], rest := r\<rparr>))"
| "scan_element prog optstring longopts a r s = (getopt_done, s)"

text \<open>
  \<^verbatim>\<open>getopt_long\<close>: inside a cluster, the next short option. Otherwise the next
  element: by default the non-options before it are passed over (they end up after the
  options, in their order, which is how the library permutes \<^verbatim>\<open>argv\<close>); with
  \<^verbatim>\<open>POSIXLY_CORRECT\<close> the first non-option ends the scan. The scan also ends when
  no element is left.
\<close>

definition getopt_long :: "env \<Rightarrow> string \<Rightarrow> long_option list \<Rightarrow> state \<Rightarrow> getopt_ret \<times> state" where
  "getopt_long E optstring longopts s =
     (case nextchar s of
        c # nc \<Rightarrow> short_option (argv0 s) optstring c nc s
      | [] \<Rightarrow>
          let s1 = (if posixly_correct E then s
                    else s\<lparr>skipped := skipped s @ takeWhile nonoption_p (rest s),
                           rest := dropWhile nonoption_p (rest s)\<rparr>)
          in (case rest s1 of
                [] \<Rightarrow> (getopt_done, s1)
              | a # r \<Rightarrow>
                  if nonoption_p a then (getopt_done, s1)
                  else scan_element (argv0 s) optstring longopts a r s1))"

text \<open>
  \<^verbatim>\<open>optind\<close> once the scan has ended, and \<^verbatim>\<open>argv\<close> as the library leaves it:
  the options first, then the operands.
\<close>

definition optind :: "state \<Rightarrow> nat" where
  "optind s = Suc (length (taken s))"

definition argv :: "state \<Rightarrow> string list" where
  "argv s = argv0 s # taken s @ skipped s @ rest s"

text \<open>What is left to scan: the measure under which \<open>parse_args\<close> terminates.\<close>

definition scan_size :: "state \<Rightarrow> nat" where
  "scan_size s = length (nextchar s) + sum_list (map (\<lambda>a. Suc (length a)) (rest s))"

subsection \<open>\<open>parse_args\<close>\<close>

text \<open>
  The loop of \<open>parse_args\<close>. \<open>option_index\<close> is reset to 0 before every call and
  keeps that value when the scanner stores nothing. \<^verbatim>\<open>--help\<close> prints the usage
  and ends the process with status 0; \<^verbatim>\<open>-o\<close> assigns the global \<open>outfile\<close>;
  \<^verbatim>\<open>'?'\<close> (63) is passed by; any other return value throws.
\<close>

function parse_args :: "env \<Rightarrow> string \<Rightarrow> string \<Rightarrow> state \<Rightarrow> nat result \<times> state" where
  "parse_args E prog version s =
     (case getopt_long E ''o:'' long_options s of
        (g, s') \<Rightarrow>
          let c = code g;
              option_index = (case longind g of None \<Rightarrow> 0 | Some i \<Rightarrow> i)
          in
          if c = - 1 then (Return (optind s'), s')
          else if c = 0 then
            (if flag (long_options ! option_index) \<noteq> None then parse_args E prog version s'
             else if name (long_options ! option_index) = ''help'' then
               (Exit 0, print_help prog version s')
             else parse_args E prog version s')
          else if c = 111 then parse_args E prog version (s'\<lparr>outfile := optarg g\<rparr>)
          else if c = 63 then parse_args E prog version s'
          else (Throw (Runtime_error (''Invalid option '' @ sq @ [char_of c] @ sq)), s'))"
  by pat_completeness auto

text \<open>Every call of the scanner that does not end the scan leaves less to scan.\<close>

lemma sum_list_dropWhile_le:
  "sum_list (map f (dropWhile P xs)) \<le> (sum_list (map f xs) :: nat)"
  by (induction xs) auto

lemma short_option_size:
  "short_option prog os c nc s = (g, s') \<Longrightarrow>
     scan_size s' \<le> length nc + sum_list (map (\<lambda>a. Suc (length a)) (rest s))"
  by (auto simp: short_option_def getopt_error_def cerr_def scan_size_def
           split: list.splits if_splits)

lemma long_option_size:
  "process_long_option prog lo nc s = (g, s') \<Longrightarrow> scan_size s' \<le> scan_size s"
  by (auto simp: process_long_option_def Let_def getopt_error_def cerr_def scan_size_def
           split: list.splits if_splits)

lemma scan_element_size:
  "scan_element prog os lo a r s = (g, s') \<Longrightarrow> code g \<noteq> - 1 \<Longrightarrow> nextchar s = [] \<Longrightarrow>
     scan_size s' < Suc (length a) + sum_list (map (\<lambda>a. Suc (length a)) r)"
  apply (cases "(prog, os, lo, a, r, s)" rule: scan_element.cases)
    apply (auto simp: getopt_done_def split: if_splits dest!: short_option_size long_option_size)
  apply (auto simp: scan_size_def)
  done

lemma getopt_long_decreases:
  "getopt_long E os lo s = (g, s') \<Longrightarrow> code g \<noteq> - 1 \<Longrightarrow> scan_size s' < scan_size s"
  apply (auto simp: getopt_long_def Let_def getopt_done_def split: list.splits if_splits
              dest!: short_option_size scan_element_size)
   apply (auto simp: scan_size_def)
  subgoal for a r
    using sum_list_dropWhile_le[of "\<lambda>a. Suc (length a)" nonoption_p "rest s"] by simp
  done

termination parse_args
proof (relation "measure (\<lambda>(E, prog, version, s). scan_size s)")
  show "wf (measure (\<lambda>(E, prog, version, s). scan_size s))" by simp
qed (auto dest!: getopt_long_decreases[OF sym] simp: scan_size_def)

declare parse_args.simps [simp del]

subsection \<open>\<open>get_basedir\<close>\<close>

text \<open>
  \<^verbatim>\<open>strrchr\<close> as the index of the last occurrence. \<open>get_basedir\<close> keeps the path
  up to and including its last slash, and nothing when there is none.
\<close>

definition strrchr :: "string \<Rightarrow> char \<Rightarrow> nat option" where
  "strrchr str c =
     (if c \<in> set str then Some (length str - Suc (length (takeWhile (\<lambda>x. x \<noteq> c) (rev str))))
      else None)"

definition get_basedir :: "string \<Rightarrow> string" where
  "get_basedir fname =
     (case strrchr fname (CHR ''/'') of None \<Rightarrow> [] | Some p \<Rightarrow> take (p + 1) fname)"

subsection \<open>System calls\<close>

definition log :: "syscall \<Rightarrow> state \<Rightarrow> state" where
  "log c s = s\<lparr>trace := trace s @ [c]\<rparr>"

text \<open>A change of the file system is recorded in \<open>hist\<close>, so every state an observer
  could have seen is kept.\<close>

definition set_fs :: "filesystem \<Rightarrow> state \<Rightarrow> state" where
  "set_fs f s = s\<lparr>fs := f, hist := hist s @ [f]\<rparr>"

text \<open>
  \<^verbatim>\<open>open(path, O_RDONLY)\<close>: the descriptor of an existing file delivers its bytes;
  a missing file gives -1 (\<open>None\<close>).
\<close>

definition sys_open :: "string \<Rightarrow> state \<Rightarrow> rd_event list option \<times> state" where
  "sys_open path s =
     (case fs s path of
        None \<Rightarrow> (None, log (Sys_open path) s)
      | Some f \<Rightarrow> (Some [Bytes (content f)], log (Sys_open path) s))"

text \<open>
  \<^verbatim>\<open>read(fd, buf, n)\<close>: the return value, the bytes stored and what the descriptor
  still holds. At most \<open>n\<close> bytes of the next batch are delivered.
\<close>

fun read_events :: "nat \<Rightarrow> rd_event list \<Rightarrow> int \<times> byte list \<times> rd_event list" where
  "read_events n [] = (0, [], [])"
| "read_events n (Rd_error # es) = (- 1, [], es)"
| "read_events n (Bytes bs # es) =
     (if length bs \<le> n then (int (length bs), bs, es)
      else (int n, take n bs, Bytes (drop n bs) # es))"

definition sys_read :: "rd_event list \<Rightarrow> nat \<Rightarrow> state \<Rightarrow> (int \<times> byte list \<times> rd_event list) \<times> state" where
  "sys_read inp n s = (read_events n inp, log (Sys_read n) s)"

text \<open>
  \<^verbatim>\<open>write(fd, buf, n)\<close>: the next outcome of the schedule decides whether all
  bytes, some of them or none (-1) are written; with no outcome left, all are.
\<close>

definition put_bytes :: "fd \<Rightarrow> byte list \<Rightarrow> state \<Rightarrow> state" where
  "put_bytes d bs s =
     (case d of
        Stdout \<Rightarrow> s\<lparr>stdout := stdout s @ bs\<rparr>
      | Tmp_fd p \<Rightarrow>
          (case fs s p of
             None \<Rightarrow> s
           | Some f \<Rightarrow> set_fs ((fs s)(p \<mapsto> f\<lparr>content := content f @ bs\<rparr>)) s))"

definition sys_write :: "fd \<Rightarrow> byte list \<Rightarrow> state \<Rightarrow> int \<times> state" where
  "sys_write d bs s =
     (let s1 = log (Sys_write d bs) s in
      case wr_sched s1 of
        [] \<Rightarrow> (int (length bs), put_bytes d bs s1)
      | Wr_error # ws \<Rightarrow> (- 1, s1\<lparr>wr_sched := ws\<rparr>)
      | Wr_short k # ws \<Rightarrow>
          (int (min k (length bs)), put_bytes d (take k bs) (s1\<lparr>wr_sched := ws\<rparr>)))"

text \<open>
  \<^verbatim>\<open>mkstemp(template)\<close>: the template must end in six \<^verbatim>\<open>X\<close>; they are replaced
  by six characters of \<open>letters\<close> drawn from a random value, until a name is found
  that does not exist; the file is created empty with mode 0600 (384). \<open>None\<close> is -1.
\<close>

definition letters :: string where
  "letters = ''abcdefghijklmnopqrstuvwxyzABCDEFGHIJKLMNOPQRSTUVWXYZ0123456789''"

definition gen_name :: "nat \<Rightarrow> string" where
  "gen_name v = map (\<lambda>i. letters ! ((v div 62 ^ i) mod 62)) [0..<6]"

fun try_names :: "string \<Rightarrow> filesystem \<Rightarrow> nat list \<Rightarrow> string option" where
  "try_names pre f [] = None"
| "try_names pre f (v # vs) =
     (if f (pre @ gen_name v) = None then Some (pre @ gen_name v) else try_names pre f vs)"

definition sys_mkstemp :: "env \<Rightarrow> string \<Rightarrow> state \<Rightarrow> string option \<times> state" where
  "sys_mkstemp E template s =
     (let s1 = log (Sys_mkstemp template) s;
          n = length template
      in
      if n < 6 \<or> drop (n - 6) template \<noteq> ''XXXXXX'' then (None, s1)
      else if tmp_denied E then (None, s1)
      else
        (case try_names (take (n - 6) template) (fs s1) (tmp_rand E) of
           None \<Rightarrow> (None, s1)
         | Some p \<Rightarrow> (Some p, set_fs ((fs s1)(p \<mapsto> \<lparr>content = [], perm = 384\<rparr>)) s1)))"

text \<open>\<^verbatim>\<open>chmod\<close> and \<^verbatim>\<open>rename\<close> return 0 (\<open>True\<close>) or -1. Renaming a file onto
  itself does nothing; otherwise the new name takes the file and the old name is gone,
  in one step.\<close>

definition sys_chmod :: "env \<Rightarrow> string \<Rightarrow> nat \<Rightarrow> state \<Rightarrow> bool \<times> state" where
  "sys_chmod E path mode s =
     (let s1 = log (Sys_chmod path mode) s in
      case fs s1 path of
        None \<Rightarrow> (False, s1)
      | Some f \<Rightarrow>
          if chmod_fails E then (False, s1)
          else (True, set_fs ((fs s1)(path \<mapsto> f\<lparr>perm := mode\<rparr>)) s1))"

definition sys_rename :: "env \<Rightarrow> string \<Rightarrow> string \<Rightarrow> state \<Rightarrow> bool \<times> state" where
  "sys_rename E old new s =
     (let s1 = log (Sys_rename old new) s in
      case fs s1 old of
        None \<Rightarrow> (False, s1)
      | Some f \<Rightarrow>
          if rename_fails E then (False, s1)
          else if old = new then (True, s1)
          else (True, set_fs ((fs s1)(new \<mapsto> f, old := None)) s1))"

subsection \<open>\<open>main\<close>\<close>

text \<open>What a descriptor still holds, counted so that every read that delivers
  something makes it smaller.\<close>

fun inp_size :: "rd_event list \<Rightarrow> nat" where
  "inp_size [] = 0"
| "inp_size (Bytes bs # es) = Suc (length bs) + inp_size es"
| "inp_size (Rd_error # es) = Suc (inp_size es)"

definition buf_sz :: nat where
  "buf_sz = 4096"

text \<open>
  The \<^verbatim>\<open>while\<close> loop of \<open>main\<close> (lines 124 to 139). \<open>rv\<close> is what \<^verbatim>\<open>read\<close>
  returned and \<open>buf\<close> the bytes it stored. The output buffer \<open>out\<close> has room for
  \<open>rv\<close> wide characters; the converter stores at most that many bytes in it and
  leaves \<open>sOut\<close> bytes of it unused. Neither the return value of \<^verbatim>\<open>iconv\<close> nor
  \<open>sIn\<close>, the number of input bytes it left unconsumed, is looked at.
  \<open>total_cnv\<close> is a \<^verbatim>\<open>ssize_t\<close>, 64 bits wide.
\<close>

function convert_loop :: "env \<Rightarrow> rd_event list \<Rightarrow> fd \<Rightarrow> 64 word \<Rightarrow> state \<Rightarrow> 64 word result \<times> state" where
  "convert_loop E in_fd out_fd total_cnv s =
     (case sys_read in_fd (buf_sz - 1) s of
        ((rv, buf, in_fd'), s1) \<Rightarrow>
          if rv > 0 then
            (let s2 = log Sys_iconv_open s1 in
             if \<not> iconv_open_ok E then
               (Throw (Runtime_error (''This system can'' @ sq @ ''t convert from UTF-8 to WCHAR_T'')), s2)
             else
               (case iconv E buf (nat rv * sizeof_wchar_t E) of
                  (produced, sIn) \<Rightarrow>
                    let out = take (nat rv * sizeof_wchar_t E) produced;
                        sOut = nat rv * sizeof_wchar_t E - length out;
                        s3 = log (Sys_iconv buf (nat rv * sizeof_wchar_t E)) s2;
                        to_write = int (nat rv * sizeof_wchar_t E) - int sOut
                    in
                    (case sys_write out_fd (take (nat to_write) out) s3 of
                       (w, s4) \<Rightarrow>
                         if to_write \<noteq> w then
                           (Throw (Runtime_error (''Couldn'' @ sq @ ''t write the required bytes to stdout'')), s4)
                         else convert_loop E in_fd' out_fd (total_cnv + word_of_int to_write) s4)))
          else (Return total_cnv, s1))"
  by pat_completeness auto

lemma read_events_decreases:
  "read_events n inp = (rv, buf, inp') \<Longrightarrow> 0 < rv \<Longrightarrow> inp_size inp' < inp_size inp"
  by (cases "(n, inp)" rule: read_events.cases) (auto split: if_splits)

termination convert_loop
proof (relation "measure (\<lambda>(E, in_fd, out_fd, total_cnv, s). inp_size in_fd)")
  show "wf (measure (\<lambda>(E, in_fd, out_fd, total_cnv, s). inp_size in_fd))" by simp
qed (auto simp: sys_read_def dest: read_events_decreases[OF sym])

declare convert_loop.simps [simp del]

text \<open>Lines 106 to 112: the input is the first operand when there is one, else
  standard input.\<close>

definition open_input :: "env \<Rightarrow> nat \<Rightarrow> state \<Rightarrow> rd_event list result \<times> state" where
  "open_input E optind' s =
     (if optind' < length (argv s) then
        (case sys_open (argv s ! optind') s of
           (None, s1) \<Rightarrow>
             (Throw (Runtime_error (''Can'' @ sq @ ''t open file '' @ sq @ argv s ! optind' @ sq @
                                    '' as input'')), s1)
         | (Some in_fd, s1) \<Rightarrow> (Return in_fd, s1))
      else (Return (stdin E), s))"

text \<open>
  Lines 113 to 122: with an output path, the template is what \<^verbatim>\<open>snprintf\<close> with
  size 255 leaves of the directory part followed by \<^verbatim>\<open>sconv-XXXXXX\<close> (at most 254
  characters), and \<open>tmpfile\<close> is the name \<^verbatim>\<open>mkstemp\<close> made of it. \<open>None\<close> is the
  failure of \<^verbatim>\<open>mkstemp\<close>, on which \<open>main\<close> returns.
\<close>

definition open_output :: "env \<Rightarrow> state \<Rightarrow> (fd \<times> string) option \<times> state" where
  "open_output E s =
     (if outfile s \<noteq> [] then
        (case sys_mkstemp E (take 254 (get_basedir (outfile s) @ ''sconv-XXXXXX'')) s of
           (None, s1) \<Rightarrow> (None, s1)
         | (Some tmpfile, s1) \<Rightarrow> (Some (Tmp_fd tmpfile, tmpfile), s1))
      else (Some (Stdout, []), s))"

definition S_IRWXU :: nat where
  "S_IRWXU = 448"

definition S_IRGRP :: nat where
  "S_IRGRP = 32"

definition S_IROTH :: nat where
  "S_IROTH = 4"

text \<open>Lines 142 to 148: close, set the permissions, rename over the output path.\<close>

definition publish :: "env \<Rightarrow> fd \<Rightarrow> string \<Rightarrow> state \<Rightarrow> unit result \<times> state" where
  "publish E out_fd tmpfile s =
     (if outfile s \<noteq> [] then
        (case sys_chmod E tmpfile (S_IRWXU OR S_IRGRP OR S_IROTH) (log (Sys_close out_fd) s) of
           (False, s1) \<Rightarrow>
             (Throw (Runtime_error (''Can'' @ sq @ ''t change permissions of output file'')), s1)
         | (True, s1) \<Rightarrow>
             (case sys_rename E tmpfile (outfile s1) s1 of
                (False, s2) \<Rightarrow>
                  (Throw (Runtime_error (''Can'' @ sq @ ''t swap temp file to output file'')), s2)
              | (True, s2) \<Rightarrow> (Return (), s2)))
      else (Return (), s))"

text \<open>
  The \<^verbatim>\<open>try\<close> block of \<open>main\<close>. \<open>Return (Some v)\<close> is a \<^verbatim>\<open>return v\<close> inside the
  block (\<^verbatim>\<open>return false\<close> is 0); \<open>Return None\<close> is its normal end.
\<close>

definition try_block :: "env \<Rightarrow> state \<Rightarrow> int option result \<times> state" where
  "try_block E s =
     (case parse_args E (argv0 s) VERSION s of
        (Exit r, s1) \<Rightarrow> (Exit r, s1)
      | (Throw e, s1) \<Rightarrow> (Throw e, s1)
      | (Return optind', s1) \<Rightarrow>
          (case open_input E optind' s1 of
             (Exit r, s2) \<Rightarrow> (Exit r, s2)
           | (Throw e, s2) \<Rightarrow> (Throw e, s2)
           | (Return in_fd, s2) \<Rightarrow>
               (case open_output E s2 of
                  (None, s3) \<Rightarrow> (Return (Some 0), s3)
                | (Some (out_fd, tmpfile), s3) \<Rightarrow>
                    (case convert_loop E in_fd out_fd 0 s3 of
                       (Exit r, s4) \<Rightarrow> (Exit r, s4)
                     | (Throw e, s4) \<Rightarrow> (Throw e, s4)
                     | (Return total_cnv, s4) \<Rightarrow>
                         (case publish E out_fd tmpfile s4 of
                            (Exit r, s5) \<Rightarrow> (Exit r, s5)
                          | (Throw e, s5) \<Rightarrow> (Throw e, s5)
                          | (Return _, s5) \<Rightarrow>
                              (Return None,
                               cerr (''Written: '' @ show_int (sint total_cnv) @ '' bytes'' @ nl) s5))))))"

text \<open>
  The two \<^verbatim>\<open>catch\<close> clauses, applied to the way the \<^verbatim>\<open>try\<close> block ended: the
  exit status of the process and the state it leaves. A handler prints and falls
  through to the end of \<open>main\<close>, which is status 0, as is the normal end of the block.
\<close>

definition handlers :: "int option result \<times> state \<Rightarrow> int \<times> state" where
  "handlers r =
     (case r of
        (Return (Some v), s1) \<Rightarrow> (v, s1)
      | (Return None, s1) \<Rightarrow> (0, s1)
      | (Exit v, s1) \<Rightarrow> (v, s1)
      | (Throw (Runtime_error what), s1) \<Rightarrow> (0, cerr (''Exception: '' @ what @ nl) s1)
      | (Throw Other_exception, s1) \<Rightarrow> (0, cerr (''Unknown exception'' @ nl) s1))"

definition main :: "env \<Rightarrow> state \<Rightarrow> int \<times> state" where
  "main E s = handlers (try_block E s)"

text \<open>The state in which the process starts, with its arguments, a file system and
  a schedule of write outcomes.\<close>

definition start :: "string \<Rightarrow> string list \<Rightarrow> filesystem \<Rightarrow> wr_outcome list \<Rightarrow> state" where
  "start prog args f ws =
     \<lparr>outfile = [], argv0 = prog, taken = [], skipped = [], rest = args, nextchar = [],
      stdout = [], stderr = [], fs = f, wr_sched = ws, trace = [], hist = []\<rparr>"

subsection \<open>Notions used in the properties\<close>

text \<open>Two states that differ at most in the option scanner, \<open>outfile\<close> and standard
  error.\<close>

definition same_world :: "state \<Rightarrow> state \<Rightarrow> bool" where
  "same_world s s' =
     (argv0 s' = argv0 s \<and> stdout s' = stdout s \<and> fs s' = fs s \<and> hist s' = hist s \<and>
      wr_sched s' = wr_sched s \<and> trace s' = trace s)"

text \<open>
  An environment for the examples: wide characters of four bytes, a converter that
  turns each leading ASCII byte into four bytes and stops at the first byte that is not
  ASCII, \<^verbatim>\<open>mkstemp\<close> drawing 0 (the name ending in \<^verbatim>\<open>aaaaaa\<close>), no failure, and
  nothing on standard input.
\<close>

definition quiet_env :: env where
  "quiet_env =
     \<lparr>posixly_correct = False, sizeof_wchar_t = 4, iconv_open_ok = True,
      iconv = (\<lambda>buf cap. (concat (map (\<lambda>b. [b, 0, 0, 0]) (takeWhile (\<lambda>b. b < 128) buf)),
                            length (dropWhile (\<lambda>b. b < 128) buf))),
      tmp_rand = [0], tmp_denied = False, chmod_fails = False, rename_fails = False,
      stdin = []\<rparr>"

text \<open>The messages of the exceptions thrown after the input has been opened, and the
  message when it cannot be opened.\<close>

definition fatal_messages :: "string list" where
  "fatal_messages =
     [''This system can'' @ sq @ ''t convert from UTF-8 to WCHAR_T'',
      ''Couldn'' @ sq @ ''t write the required bytes to stdout'',
      ''Can'' @ sq @ ''t change permissions of output file'',
      ''Can'' @ sq @ ''t swap temp file to output file'']"


text \<open>
  For a chunk \<open>buf\<close> for which \<^verbatim>\<open>read\<close> returned \<open>rv\<close>: the bytes the converter
  has stored in \<open>out\<close>, and the state in which \<^verbatim>\<open>write\<close> is called.
\<close>

definition chunk_out :: "env \<Rightarrow> int \<Rightarrow> byte list \<Rightarrow> byte list" where
  "chunk_out E rv buf =
     take (nat rv * sizeof_wchar_t E) (fst (iconv E buf (nat rv * sizeof_wchar_t E)))"

definition before_write :: "env \<Rightarrow> int \<Rightarrow> byte list \<Rightarrow> state \<Rightarrow> state" where
  "before_write E rv buf s =
     log (Sys_iconv buf (nat rv * sizeof_wchar_t E))
       (log Sys_iconv_open (log (Sys_read (buf_sz - 1)) s))"

text \<open>What has been written to a descriptor, and whether its file is there.\<close>

definition output_of :: "fd \<Rightarrow> state \<Rightarrow> byte list" where
  "output_of d s =
     (case d of
        Stdout \<Rightarrow> stdout s
      | Tmp_fd p \<Rightarrow> (case fs s p of None \<Rightarrow> [] | Some f \<Rightarrow> content f))"

definition writable :: "fd \<Rightarrow> state \<Rightarrow> bool" where
  "writable d s = (case d of Stdout \<Rightarrow> True | Tmp_fd p \<Rightarrow> fs s p \<noteq> None)"

text \<open>The byte counts asked of \<^verbatim>\<open>read\<close> and the chunks handed to the converter, in
  a list of calls.\<close>

fun read_calls :: "syscall list \<Rightarrow> nat list" where
  "read_calls [] = []"
| "read_calls (Sys_read n # cs) = n # read_calls cs"
| "read_calls (c # cs) = read_calls cs"

fun chunks :: "syscall list \<Rightarrow> byte list list" where
  "chunks [] = []"
| "chunks (Sys_iconv buf cap # cs) = buf # chunks cs"
| "chunks (c # cs) = chunks cs"




definition shifted :: "string \<Rightarrow> string \<Rightarrow> state \<Rightarrow> state" where
  "shifted a d s = s\<lparr>taken := a # taken s, stderr := d @ stderr s\<rparr>"

text \<open>The bytes handed to \<^verbatim>\<open>write\<close> in a list of calls, in order.\<close>

fun written :: "syscall list \<Rightarrow> byte list" where
  "written [] = []"
| "written (Sys_write d bs # cs) = bs @ written cs"
| "written (c # cs) = written cs"



text \<open>The names \<^verbatim>\<open>mkstemp\<close> may give the temporary file of an output path in an
  environment: one for each random value it may draw.\<close>

definition temp_names :: "env \<Rightarrow> string \<Rightarrow> string list" where
  "temp_names E path =
     (let t = take 254 (get_basedir path @ ''sconv-XXXXXX'')
      in map (\<lambda>v. take (length t - 6) t @ gen_name v) (tmp_rand E))"

section \<open>Properties\<close>

subsection \<open>The option scanner changes nothing but its own state and standard error\<close>

lemma same_world_refl [simp]: "same_world s s"
  by (simp add: same_world_def)

lemma same_world_trans: "same_world s s1 \<Longrightarrow> same_world s1 s2 \<Longrightarrow> same_world s s2"
  by (simp add: same_world_def)

lemma short_option_world:
  "short_option prog os c nc s = (g, s') \<Longrightarrow> same_world s s'"
  by (auto simp: short_option_def getopt_error_def cerr_def same_world_def
           split: list.splits if_splits)

lemma long_option_world:
  "process_long_option prog lo nc s = (g, s') \<Longrightarrow> same_world s s'"
  by (auto simp: process_long_option_def Let_def getopt_error_def cerr_def same_world_def
           split: list.splits if_splits)

lemma scan_element_world:
  "scan_element prog os lo a r s = (g, s') \<Longrightarrow> same_world s s'"
  by (cases "(prog, os, lo, a, r, s)" rule: scan_element.cases)
     (auto simp: same_world_def split: if_splits dest!: short_option_world long_option_world)

lemma getopt_long_world:
  "getopt_long E os lo s = (g, s') \<Longrightarrow> same_world s s'"
  by (auto simp: getopt_long_def Let_def same_world_def split: list.splits if_splits
           dest!: short_option_world scan_element_world)

lemma parse_args_world:
  "parse_args E prog version s = (r, s') \<Longrightarrow> same_world s s'"
proof (induction E prog version s arbitrary: r s' rule: parse_args.induct)
  case (1 E prog version s)
  obtain g s1 where g: "getopt_long E ''o:'' long_options s = (g, s1)"
    by (cases "getopt_long E ''o:'' long_options s")
  have w1: "same_world s s1" using g by (rule getopt_long_world)
  have w2: "same_world s (s1\<lparr>outfile := x\<rparr>)" for x
    using w1 by (simp add: same_world_def)
  have w3: "same_world s (print_help p v s1)" for p v
    using w1 by (simp add: same_world_def print_help_def cerr_def)
  show ?case
  proof -
    have eq: "parse_args E prog version s = (r, s')" by (rule "1.prems")
    note ih = "1.IH"[OF g[symmetric] refl refl]
    show ?thesis
      using eq
      apply (subst (asm) parse_args.simps)
      apply (simp add: g Let_def split: if_splits)
      using w1 w2 w3 ih
          apply (auto intro: same_world_trans)
      done
  qed
qed


subsection \<open>What the scanner returns for the option table of \<open>parse_args\<close>\<close>






lemma long_options_nth [simp]:
  "flag (long_options ! 0) = None" "flag (long_options ! Suc 0) = None"
  "name (long_options ! 0) = ''output-file''" "name (long_options ! Suc 0) = ''help''"
  by (simp_all add: long_options_def)




subsection \<open>Failure of \<^verbatim>\<open>mkstemp\<close>\<close>

lemma open_input_world:
  "open_input E n s = (r, s') \<Longrightarrow>
     outfile s' = outfile s \<and> stdout s' = stdout s \<and> stderr s' = stderr s \<and> fs s' = fs s \<and>
     hist s' = hist s \<and> wr_sched s' = wr_sched s \<and>
     trace s' = (if n < length (argv s) then trace s @ [Sys_open (argv s ! n)] else trace s)"
  by (auto simp: open_input_def sys_open_def log_def split: if_splits option.splits)

lemma main_mkstemp_fails:
  assumes "parse_args E (argv0 s) VERSION s = (Return n, s1)"
      and "open_input E n s1 = (Return in_fd, s2)"
      and "outfile s2 \<noteq> []"
      and "sys_mkstemp E (take 254 (get_basedir (outfile s2) @ ''sconv-XXXXXX'')) s2 = (None, s3)"
    shows "main E s = (0, s3)"
  using assms by (simp add: main_def handlers_def try_block_def open_output_def)

lemma sys_mkstemp_None:
  "sys_mkstemp E t s = (None, s') \<Longrightarrow> s' = log (Sys_mkstemp t) s"
  by (auto simp: sys_mkstemp_def Let_def split: if_splits option.splits)

text \<open>
  C8: when \<open>outfile\<close> is set and \<^verbatim>\<open>mkstemp\<close> returns -1, \<open>main\<close> returns at once
  with status 0. Nothing is written to standard output, standard error holds what the
  option scanner had printed and nothing more (no \<^verbatim>\<open>Exception:\<close> line, no byte
  count), the file system is untouched, and the only calls issued are the \<^verbatim>\<open>open\<close>
  of the input (when an operand names one) and the \<^verbatim>\<open>mkstemp\<close> itself: no read, no
  conversion, no write.
\<close>

theorem mkstemp_failure_returns_silently:
  assumes "parse_args E (argv0 s) VERSION s = (Return n, s1)"
      and "open_input E n s1 = (Return in_fd, s2)"
      and "outfile s2 \<noteq> []"
      and "sys_mkstemp E (take 254 (get_basedir (outfile s2) @ ''sconv-XXXXXX'')) s2 = (None, s3)"
    shows "main E s = (0, s3) \<and> stdout s3 = stdout s \<and> stderr s3 = stderr s1 \<and>
           fs s3 = fs s \<and> hist s3 = hist s \<and>
           trace s3 =
             (if n < length (argv s1) then trace s @ [Sys_open (argv s1 ! n)] else trace s) @
             [Sys_mkstemp (take 254 (get_basedir (outfile s2) @ ''sconv-XXXXXX''))]"
proof -
  have w: "same_world s s1" using assms(1) by (rule parse_args_world)
  note o = open_input_world[OF assms(2)]
  have s3: "s3 = log (Sys_mkstemp (take 254 (get_basedir (outfile s2) @ ''sconv-XXXXXX''))) s2"
    using assms(4) by (rule sys_mkstemp_None)
  show ?thesis
    using main_mkstemp_fails[OF assms] w o
    by (simp add: s3 log_def same_world_def)
qed

lemma parse_o_out:
  "parse_args E ''sconv'' VERSION (start ''sconv'' [''-o'', ''out''] f ws) =
     (Return 3, (start ''sconv'' [] f ws)\<lparr>outfile := ''out'', taken := [''-o'', ''out'']\<rparr>)"
  by (simp add: parse_args.simps getopt_long_def short_option_def getopt_done_def optind_def
                start_def)

theorem mkstemp_failure_returns_silently_witness:
  "main (quiet_env\<lparr>tmp_denied := True\<rparr>) (start ''sconv'' [''-o'', ''out''] Map.empty []) =
     (0, (start ''sconv'' [] Map.empty [])
           \<lparr>outfile := ''out'', taken := [''-o'', ''out''], trace := [Sys_mkstemp ''sconv-XXXXXX'']\<rparr>)"
proof -
  let ?E = "quiet_env\<lparr>tmp_denied := True\<rparr>"
  let ?s = "start ''sconv'' [''-o'', ''out''] Map.empty []"
  let ?s1 = "(start ''sconv'' [] Map.empty [])\<lparr>outfile := ''out'', taken := [''-o'', ''out'']\<rparr>"
  have p: "parse_args ?E (argv0 ?s) VERSION ?s = (Return 3, ?s1)"
    using parse_o_out[of ?E Map.empty "[]"] by (simp add: start_def)
  have i: "open_input ?E 3 ?s1 = (Return [], ?s1)"
    by (simp add: open_input_def argv_def start_def quiet_env_def)
  have o: "outfile ?s1 \<noteq> []" by simp
  have b: "get_basedir ''out'' = []" by (simp add: get_basedir_def strrchr_def)
  have m: "sys_mkstemp ?E (take 254 (get_basedir (outfile ?s1) @ ''sconv-XXXXXX'')) ?s1 =
             (None, ?s1\<lparr>trace := [Sys_mkstemp ''sconv-XXXXXX'']\<rparr>)"
    by (simp add: b sys_mkstemp_def log_def start_def)
  show ?thesis
    using mkstemp_failure_returns_silently[OF p i o m] by simp
qed

subsection \<open>One round of the conversion loop\<close>

lemma convert_loop_step:
  assumes "read_events (buf_sz - 1) in_fd = (rv, buf, in_fd')"
  shows "convert_loop E in_fd out_fd tot s =
           (if rv \<le> 0 then (Return tot, log (Sys_read (buf_sz - 1)) s)
            else if \<not> iconv_open_ok E then
              (Throw (Runtime_error (''This system can'' @ sq @ ''t convert from UTF-8 to WCHAR_T'')),
               log Sys_iconv_open (log (Sys_read (buf_sz - 1)) s))
            else
              (case sys_write out_fd (chunk_out E rv buf) (before_write E rv buf s) of
                 (w, s4) \<Rightarrow>
                   if w \<noteq> int (length (chunk_out E rv buf)) then
                     (Throw (Runtime_error (''Couldn'' @ sq @ ''t write the required bytes to stdout'')), s4)
                   else convert_loop E in_fd' out_fd
                          (tot + word_of_nat (length (chunk_out E rv buf))) s4))"
proof -
  let ?cap = "nat rv * sizeof_wchar_t E"
  obtain produced sIn where i: "iconv E buf ?cap = (produced, sIn)"
    by (cases "iconv E buf ?cap")
  have r: "sys_read in_fd (buf_sz - 1) s = ((rv, buf, in_fd'), log (Sys_read (buf_sz - 1)) s)"
    using assms by (simp add: sys_read_def)
  have out: "take ?cap produced = chunk_out E rv buf"
    by (simp add: chunk_out_def i)
  have len: "length (chunk_out E rv buf) \<le> ?cap"
    by (simp add: chunk_out_def)
  have tw: "int ?cap - int (?cap - length (chunk_out E rv buf)) = int (length (chunk_out E rv buf))"
    using len by simp
  have tk: "take (nat (int (length (chunk_out E rv buf)))) (chunk_out E rv buf) = chunk_out E rv buf"
    by simp
  show ?thesis
    apply (subst convert_loop.simps)
    apply (simp only: r prod.case i Let_def out tw tk before_write_def[symmetric])
    apply (auto split: prod.splits)
    done
qed

lemma convert_loop_induct [consumes 0, case_names step]:
  assumes "\<And>in_fd tot s.
             (\<And>rv buf in_fd' s4.
                 read_events (buf_sz - 1) in_fd = (rv, buf, in_fd') \<Longrightarrow> 0 < rv \<Longrightarrow>
                 iconv_open_ok E \<Longrightarrow>
                 sys_write out_fd (chunk_out E rv buf) (before_write E rv buf s) =
                   (int (length (chunk_out E rv buf)), s4) \<Longrightarrow>
                 P in_fd' (tot + word_of_nat (length (chunk_out E rv buf))) s4) \<Longrightarrow>
             P in_fd tot s"
  shows "P in_fd tot s"
proof (induction "inp_size in_fd" arbitrary: in_fd tot s rule: less_induct)
  case less
  show ?case
  proof (rule assms)
    fix rv buf in_fd' s4
    assume "read_events (buf_sz - 1) in_fd = (rv, buf, in_fd')" "0 < rv"
    then have "inp_size in_fd' < inp_size in_fd" by (rule read_events_decreases)
    then show "P in_fd' (tot + word_of_nat (length (chunk_out E rv buf))) s4"
      by (rule less)
  qed
qed

subsection \<open>Exceptions and the exit status\<close>


lemma convert_loop_no_exit:
  "convert_loop E in_fd out_fd tot s \<noteq> (Exit v, s')"
proof (induction in_fd tot s rule: convert_loop_induct[where E = E and out_fd = out_fd])
  case (step in_fd tot s)
  obtain rv buf in_fd' where r: "read_events (buf_sz - 1) in_fd = (rv, buf, in_fd')"
    by (cases "read_events (buf_sz - 1) in_fd")
  show ?case
    using step.IH[OF r]
    by (subst convert_loop_step[OF r]) (auto split: if_splits prod.splits)
qed










subsection \<open>Evaluating the examples\<close>

lemma start_simps [simp]:
  "outfile (start p a f ws) = []" "argv0 (start p a f ws) = p" "taken (start p a f ws) = []"
  "skipped (start p a f ws) = []" "rest (start p a f ws) = a" "nextchar (start p a f ws) = []"
  "stdout (start p a f ws) = []" "stderr (start p a f ws) = []" "fs (start p a f ws) = f"
  "wr_sched (start p a f ws) = ws" "trace (start p a f ws) = []" "hist (start p a f ws) = []"
  by (simp_all add: start_def)

lemma start_rest [simp]: "(start p a f ws)\<lparr>rest := b\<rparr> = start p b f ws"
  by (simp add: start_def)

lemma quiet_env_simps [simp]:
  "\<not> posixly_correct quiet_env" "sizeof_wchar_t quiet_env = 4" "iconv_open_ok quiet_env"
  "tmp_rand quiet_env = [0]" "\<not> tmp_denied quiet_env" "\<not> chmod_fails quiet_env"
  "\<not> rename_fails quiet_env" "stdin quiet_env = []"
  by (simp_all add: quiet_env_def)



subsection \<open>What a write leaves behind\<close>

lemma sys_write_trace:
  "sys_write d bs s = (w, s') \<Longrightarrow> trace s' = trace s @ [Sys_write d bs]"
  by (auto simp: sys_write_def Let_def log_def put_bytes_def set_fs_def
           split: list.splits wr_outcome.splits fd.splits option.splits)

lemma sys_write_stderr:
  "sys_write d bs s = (w, s') \<Longrightarrow> stderr s' = stderr s \<and> outfile s' = outfile s"
  by (auto simp: sys_write_def Let_def log_def put_bytes_def set_fs_def
           split: list.splits wr_outcome.splits fd.splits option.splits)

lemma sys_write_full:
  "sys_write d bs s = (int (length bs), s') \<Longrightarrow> writable d s \<Longrightarrow>
     output_of d s' = output_of d s @ bs \<and> writable d s'"
  by (auto simp: sys_write_def Let_def log_def put_bytes_def set_fs_def output_of_def
                 writable_def min_def
           split: list.splits wr_outcome.splits fd.splits option.splits if_splits)

lemma log_simps [simp]:
  "trace (log c s) = trace s @ [c]" "stderr (log c s) = stderr s" "stdout (log c s) = stdout s"
  "fs (log c s) = fs s" "hist (log c s) = hist s" "outfile (log c s) = outfile s"
  "wr_sched (log c s) = wr_sched s" "argv (log c s) = argv s"
  "output_of d (log c s) = output_of d s" "writable d (log c s) = writable d s"
  by (simp_all add: log_def output_of_def writable_def argv_def split: fd.splits)

lemma before_write_simps [simp]:
  "trace (before_write E rv buf s) =
     trace s @ [Sys_read (buf_sz - 1), Sys_iconv_open, Sys_iconv buf (nat rv * sizeof_wchar_t E)]"
  "output_of d (before_write E rv buf s) = output_of d s"
  "writable d (before_write E rv buf s) = writable d s"
  "stderr (before_write E rv buf s) = stderr s"
  "stdout (before_write E rv buf s) = stdout s"
  "fs (before_write E rv buf s) = fs s"
  "hist (before_write E rv buf s) = hist s"
  "outfile (before_write E rv buf s) = outfile s"
  "wr_sched (before_write E rv buf s) = wr_sched s"
  by (simp_all add: before_write_def)

lemma convert_loop_total:
  "convert_loop E in_fd out_fd tot s = (Return tot', s') \<Longrightarrow> writable out_fd s \<Longrightarrow>
     \<exists>bs. output_of out_fd s' = output_of out_fd s @ bs \<and> tot' = tot + word_of_nat (length bs)"
proof (induction in_fd tot s rule: convert_loop_induct[where E = E and out_fd = out_fd])
  case (step in_fd tot s)
  obtain rv buf in_fd' where r: "read_events (buf_sz - 1) in_fd = (rv, buf, in_fd')"
    by (cases "read_events (buf_sz - 1) in_fd")
  show ?case
  proof (cases "0 < rv")
    case False
    then show ?thesis
      using step.prems by (auto simp: convert_loop_step[OF r])
  next
    case True
    obtain w s4 where w: "sys_write out_fd (chunk_out E rv buf) (before_write E rv buf s) = (w, s4)"
      by (cases "sys_write out_fd (chunk_out E rv buf) (before_write E rv buf s)")
    from step.prems(1) True w
    have ok: "iconv_open_ok E" and weq: "w = int (length (chunk_out E rv buf))"
      and rec: "convert_loop E in_fd' out_fd (tot + word_of_nat (length (chunk_out E rv buf))) s4 =
                  (Return tot', s')"
      by (auto simp: convert_loop_step[OF r] split: if_splits)
    from sys_write_full[OF w[unfolded weq]] step.prems(2)
    have o4: "output_of out_fd s4 = output_of out_fd s @ chunk_out E rv buf" and w4: "writable out_fd s4"
      by simp_all
    from step.IH[OF r True ok w[unfolded weq] rec w4]
    obtain bs where "output_of out_fd s' = output_of out_fd s4 @ bs"
      and "tot' = tot + word_of_nat (length (chunk_out E rv buf)) + word_of_nat (length bs)"
      by blast
    then show ?thesis
      using o4 by (intro exI[of _ "chunk_out E rv buf @ bs"]) simp
  qed
qed

text \<open>
  C2: for a chunk of \<open>rv\<close> bytes, \<open>to_write\<close> is the capacity of the output buffer,
  \<open>rv * sizeof(wchar_t)\<close>, minus the bytes \<open>sOut\<close> the converter left unused in it;
  \<^verbatim>\<open>write\<close> is called with exactly the \<open>to_write\<close> bytes the converter stored; when
  it returns another count the loop throws, else the bytes are in the output, the
  count is added to \<open>total_cnv\<close> and the loop goes on. When the loop ends, the total
  has grown by the number of bytes written.
\<close>

theorem chunk_bytes_written_and_counted:
  assumes "read_events (buf_sz - 1) in_fd = (rv, buf, in_fd')" and "0 < rv"
      and "iconv_open_ok E"
      and "iconv E buf (nat rv * sizeof_wchar_t E) = (produced, sIn)"
      and "sys_write out_fd (take (nat rv * sizeof_wchar_t E) produced) (before_write E rv buf s) = (w, s4)"
      and "writable out_fd s"
  shows "let cap = nat rv * sizeof_wchar_t E;
             out = take cap produced;
             sOut = cap - length out;
             to_write = int cap - int sOut
         in to_write = int (length out) \<and>
            trace s4 = trace s @ [Sys_read 4095, Sys_iconv_open, Sys_iconv buf cap,
                                  Sys_write out_fd out] \<and>
            convert_loop E in_fd out_fd tot s =
              (if w \<noteq> to_write then
                 (Throw (Runtime_error (''Couldn'' @ sq @ ''t write the required bytes to stdout'')), s4)
               else convert_loop E in_fd' out_fd (tot + word_of_int to_write) s4) \<and>
            (w = to_write \<longrightarrow> output_of out_fd s4 = output_of out_fd s @ out) \<and>
            (\<forall>tot' s'. convert_loop E in_fd out_fd tot s = (Return tot', s') \<longrightarrow>
               (\<exists>bs. output_of out_fd s' = output_of out_fd s @ bs \<and>
                     tot' = tot + word_of_nat (length bs)))"
proof -
  have out: "chunk_out E rv buf = take (nat rv * sizeof_wchar_t E) produced"
    by (simp add: chunk_out_def assms(4))
  have w: "sys_write out_fd (chunk_out E rv buf) (before_write E rv buf s) = (w, s4)"
    using assms(5) by (simp add: out)
  have tr: "trace s4 = trace s @ [Sys_read 4095, Sys_iconv_open,
              Sys_iconv buf (nat rv * sizeof_wchar_t E), Sys_write out_fd (chunk_out E rv buf)]"
    using sys_write_trace[OF w] by (simp add: buf_sz_def)
  have full: "output_of out_fd s4 = output_of out_fd s @ chunk_out E rv buf"
    if "w = int (length (chunk_out E rv buf))"
    using sys_write_full[OF w[unfolded that]] assms(6) by simp
  have step: "convert_loop E in_fd out_fd tot s =
      (if w \<noteq> int (length (chunk_out E rv buf)) then
         (Throw (Runtime_error (''Couldn'' @ sq @ ''t write the required bytes to stdout'')), s4)
       else convert_loop E in_fd' out_fd (tot + word_of_nat (length (chunk_out E rv buf))) s4)"
    using assms(2,3) by (simp add: convert_loop_step[OF assms(1)] w)
  have tot: "\<exists>bs. output_of out_fd s' = output_of out_fd s @ bs \<and> tot' = tot + word_of_nat (length bs)"
    if "convert_loop E in_fd out_fd tot s = (Return tot', s')" for tot' s'
    using convert_loop_total[OF that assms(6)] .
  have len: "length (chunk_out E rv buf) \<le> nat rv * sizeof_wchar_t E"
    by (simp add: chunk_out_def)
  show ?thesis
    unfolding Let_def out[symmetric]
    using tr step full tot len by (auto simp: of_nat_diff)
qed

lemma quiet_iconv [simp]:
  "iconv quiet_env buf cap =
     (concat (map (\<lambda>b. [b, 0, 0, 0]) (takeWhile (\<lambda>b. b < 128) buf)),
      length (dropWhile (\<lambda>b. b < 128) buf))"
  by (simp add: quiet_env_def)

theorem chunk_bytes_written_and_counted_witness:
  "convert_loop quiet_env [Bytes [65]] Stdout 0 (start ''sconv'' [] Map.empty []) =
     convert_loop quiet_env [] Stdout 4
       ((start ''sconv'' [] Map.empty [])
          \<lparr>stdout := [65, 0, 0, 0],
           trace := [Sys_read 4095, Sys_iconv_open, Sys_iconv [65] 4,
                     Sys_write Stdout [65, 0, 0, 0]]\<rparr>)"
proof -
  let ?s = "start ''sconv'' [] Map.empty []"
  let ?s4 = "?s\<lparr>stdout := [65, 0, 0, 0],
                 trace := [Sys_read 4095, Sys_iconv_open, Sys_iconv [65] 4,
                           Sys_write Stdout [65, 0, 0, 0]]\<rparr>"
  have r: "read_events (buf_sz - 1) [Bytes [65]] = (1, [65], [])"
    by (simp add: buf_sz_def)
  have p: "(0::int) < 1" by simp
  have k: "iconv_open_ok quiet_env" by simp
  have c: "iconv quiet_env [65] (nat 1 * sizeof_wchar_t quiet_env) = ([65, 0, 0, 0], 0)"
    by simp
  have w: "sys_write Stdout (take (nat 1 * sizeof_wchar_t quiet_env) [65, 0, 0, 0])
             (before_write quiet_env 1 [65] ?s) = (4, ?s4)"
    by (simp add: sys_write_def before_write_def log_def put_bytes_def buf_sz_def)
  have a: "writable Stdout ?s" by (simp add: writable_def)
  show ?thesis
    using chunk_bytes_written_and_counted[OF r p k c w a, of 0]
    by (simp add: Let_def)
qed

subsection \<open>Reading\<close>

lemma read_calls_append [simp]: "read_calls (xs @ ys) = read_calls xs @ read_calls ys"
  by (induction xs rule: read_calls.induct) auto

lemma chunks_append [simp]: "chunks (xs @ ys) = chunks xs @ chunks ys"
  by (induction xs rule: chunks.induct) auto

lemma read_events_bounds:
  "read_events n inp = (rv, buf, inp') \<Longrightarrow>
     rv \<le> int n \<and> length buf \<le> n \<and> (0 < rv \<longrightarrow> int (length buf) = rv) \<and> - 1 \<le> rv"
  by (cases "(n, inp)" rule: read_events.cases) (auto split: if_splits)

lemma convert_loop_reads:
  "convert_loop E in_fd out_fd tot s = (r, s') \<Longrightarrow>
     \<exists>new. trace s' = trace s @ new \<and> (\<forall>n \<in> set (read_calls new). n = 4095) \<and>
           (\<forall>b \<in> set (chunks new). 0 < length b \<and> length b \<le> 4095)"
proof (induction in_fd tot s rule: convert_loop_induct[where E = E and out_fd = out_fd])
  case (step in_fd tot s)
  obtain rv buf in_fd' where r: "read_events (buf_sz - 1) in_fd = (rv, buf, in_fd')"
    by (cases "read_events (buf_sz - 1) in_fd")
  note b = read_events_bounds[OF r]
  obtain w s4 where w: "sys_write out_fd (chunk_out E rv buf) (before_write E rv buf s) = (w, s4)"
    by (cases "sys_write out_fd (chunk_out E rv buf) (before_write E rv buf s)")
  note t4 = sys_write_trace[OF w]
  consider (stop) "rv \<le> 0" | (noconv) "0 < rv" "\<not> iconv_open_ok E"
    | (short) "0 < rv" "iconv_open_ok E" "w \<noteq> int (length (chunk_out E rv buf))"
    | (go) "0 < rv" "iconv_open_ok E" "w = int (length (chunk_out E rv buf))"
    by fastforce
  then show ?case
  proof cases
    case stop
    then show ?thesis
      using step.prems by (auto simp: convert_loop_step[OF r] buf_sz_def)
  next
    case noconv
    then show ?thesis
      using step.prems by (auto simp: convert_loop_step[OF r] buf_sz_def)
  next
    case short
    then show ?thesis
      using step.prems b t4 by (auto simp: convert_loop_step[OF r] w buf_sz_def)
  next
    case go
    then have rec: "convert_loop E in_fd' out_fd (tot + word_of_nat (length (chunk_out E rv buf))) s4 = (r, s')"
      using step.prems by (simp add: convert_loop_step[OF r] w)
    from step.IH[OF r go(1,2) w[unfolded go(3)] rec]
    obtain new where n: "trace s' = trace s4 @ new" "\<forall>n \<in> set (read_calls new). n = 4095"
      "\<forall>b \<in> set (chunks new). 0 < length b \<and> length b \<le> 4095"
      by blast
    show ?thesis
      apply (rule exI[of _ "[Sys_read 4095, Sys_iconv_open, Sys_iconv buf (nat rv * sizeof_wchar_t E),
                Sys_write out_fd (chunk_out E rv buf)] @ new"])
      using n t4 b go(1) by (auto simp: buf_sz_def)
  qed
qed

lemma convert_loop_throws_which:
  "convert_loop E in_fd out_fd tot s = (Throw e, s') \<Longrightarrow>
     \<exists>msg. e = Runtime_error msg \<and> msg \<in> set (take 2 fatal_messages)"
proof (induction in_fd tot s rule: convert_loop_induct[where E = E and out_fd = out_fd])
  case (step in_fd tot s)
  obtain rv buf in_fd' where r: "read_events (buf_sz - 1) in_fd = (rv, buf, in_fd')"
    by (cases "read_events (buf_sz - 1) in_fd")
  show ?case
    using step.prems step.IH[OF r]
    by (subst (asm) convert_loop_step[OF r])
       (auto simp: fatal_messages_def split: if_splits prod.splits)
qed

lemma try_block_after_loop:
  assumes "parse_args E (argv0 s) VERSION s = (Return n, s1)"
      and "open_input E n s1 = (Return in_fd, s2)"
      and "open_output E s2 = (Some (out_fd, tmpfile), s3)"
      and "convert_loop E in_fd out_fd 0 s3 = (Return total_cnv, s4)"
  shows "try_block E s =
           (case publish E out_fd tmpfile s4 of
              (Return u, s5) \<Rightarrow>
                (Return None, cerr (''Written: '' @ show_int (sint total_cnv) @ '' bytes'' @ nl) s5)
            | (Exit v, s5) \<Rightarrow> (Exit v, s5)
            | (Throw e, s5) \<Rightarrow> (Throw e, s5))"
  using assms by (simp add: try_block_def split: prod.splits result.splits)

text \<open>
  C4: every \<^verbatim>\<open>read\<close> of the loop asks for 4095 bytes, and no chunk is longer. At
  any round, a \<^verbatim>\<open>read\<close> that returns zero or less ends the loop with its total, as a
  normal return, whatever the descriptor would still deliver; the loop ends in no other
  way than this or an exception of the converter or of \<^verbatim>\<open>write\<close>. After the normal
  return \<open>main\<close> goes on to the publish step and, when that succeeds, to the report of
  the byte count.
\<close>

theorem reads_4095_and_ends_on_nonpositive_read:
  assumes "parse_args E (argv0 s) VERSION s = (Return n, s1)"
      and "open_input E n s1 = (Return in_fd, s2)"
      and "open_output E s2 = (Some (out_fd, tmpfile), s3)"
      and "convert_loop E in_fd out_fd 0 s3 = (r, s4)"
  shows "buf_sz - 1 = 4095 \<and>
         (\<exists>new. trace s4 = trace s3 @ new \<and> (\<forall>k \<in> set (read_calls new). k = 4095) \<and>
                (\<forall>b \<in> set (chunks new). 0 < length b \<and> length b \<le> 4095)) \<and>
         (\<forall>fd' tot s'. fst (read_events 4095 fd') \<le> 0 \<longrightarrow>
            convert_loop E fd' out_fd tot s' = (Return tot, log (Sys_read 4095) s')) \<and>
         ((\<exists>total_cnv. r = Return total_cnv) \<or>
          (\<exists>msg. r = Throw (Runtime_error msg) \<and> msg \<in> set (take 2 fatal_messages))) \<and>
         (\<forall>total_cnv. r = Return total_cnv \<longrightarrow>
            try_block E s =
              (case publish E out_fd tmpfile s4 of
                 (Return u, s5) \<Rightarrow>
                   (Return None,
                    cerr (''Written: '' @ show_int (sint total_cnv) @ '' bytes'' @ nl) s5)
               | (Exit v, s5) \<Rightarrow> (Exit v, s5)
               | (Throw e, s5) \<Rightarrow> (Throw e, s5)))"
proof -
  have a: "buf_sz - 1 = 4095" by (simp add: buf_sz_def)
  have c: "convert_loop E fd' out_fd tot s' = (Return tot, log (Sys_read 4095) s')"
    if "fst (read_events 4095 fd') \<le> 0" for fd' tot s'
  proof -
    obtain rv buf in_fd' where r: "read_events (buf_sz - 1) fd' = (rv, buf, in_fd')"
      by (cases "read_events (buf_sz - 1) fd'")
    with that a have "rv \<le> 0" by simp
    then show ?thesis by (simp add: convert_loop_step[OF r] buf_sz_def)
  qed
  have d: "(\<exists>total_cnv. r = Return total_cnv) \<or>
           (\<exists>msg. r = Throw (Runtime_error msg) \<and> msg \<in> set (take 2 fatal_messages))"
  proof (cases r)
    case (Return x) then show ?thesis by simp
  next
    case (Exit v) then show ?thesis using assms(4) convert_loop_no_exit by auto
  next
    case (Throw e)
    then show ?thesis using convert_loop_throws_which[of E in_fd out_fd 0 s3 e s4] assms(4) by simp
  qed
  show ?thesis
    using a convert_loop_reads[OF assms(4)] c d try_block_after_loop[OF assms(1,2,3)] assms(4)
    by (intro conjI) auto
qed

lemma parse_no_args:
  "parse_args E p VERSION (start p [] f ws) = (Return 1, start p [] f ws)"
  by (simp add: parse_args.simps getopt_long_def getopt_done_def optind_def)

lemma sys_write_stdout_full:
  "wr_sched s = [] \<Longrightarrow>
   sys_write Stdout bs s = (int (length bs), s\<lparr>stdout := stdout s @ bs, trace := trace s @ [Sys_write Stdout bs]\<rparr>)"
  by (simp add: sys_write_def log_def put_bytes_def)

theorem reads_4095_and_ends_on_nonpositive_read_witness:
  "convert_loop (quiet_env\<lparr>stdin := [Bytes [65], Rd_error, Bytes [66]]\<rparr>)
       [Bytes [65], Rd_error, Bytes [66]] Stdout 0 (start ''sconv'' [] Map.empty []) =
     (Return 4,
      (start ''sconv'' [] Map.empty [])
        \<lparr>stdout := [65, 0, 0, 0],
         trace := [Sys_read 4095, Sys_iconv_open, Sys_iconv [65] 4,
                   Sys_write Stdout [65, 0, 0, 0], Sys_read 4095]\<rparr>) \<and>
   try_block (quiet_env\<lparr>stdin := [Bytes [65], Rd_error, Bytes [66]]\<rparr>)
       (start ''sconv'' [] Map.empty []) =
     (Return None,
      (start ''sconv'' [] Map.empty [])
        \<lparr>stdout := [65, 0, 0, 0], stderr := ''Written: 4 bytes'' @ nl,
         trace := [Sys_read 4095, Sys_iconv_open, Sys_iconv [65] 4,
                   Sys_write Stdout [65, 0, 0, 0], Sys_read 4095]\<rparr>)"
proof -
  let ?E = "quiet_env\<lparr>stdin := [Bytes [65], Rd_error, Bytes [66]]\<rparr>"
  let ?s = "start ''sconv'' [] Map.empty []"
  let ?s4 = "?s\<lparr>stdout := [65, 0, 0, 0],
                 trace := [Sys_read 4095, Sys_iconv_open, Sys_iconv [65] 4,
                           Sys_write Stdout [65, 0, 0, 0], Sys_read 4095]\<rparr>"
  have p: "parse_args ?E (argv0 ?s) VERSION ?s = (Return 1, ?s)"
    by (simp add: parse_no_args)
  have i: "open_input ?E 1 ?s = (Return [Bytes [65], Rd_error, Bytes [66]], ?s)"
    by (simp add: open_input_def argv_def)
  have o: "open_output ?E ?s = (Some (Stdout, []), ?s)"
    by (simp add: open_output_def)
  have r1: "read_events (buf_sz - 1) [Bytes [65], Rd_error, Bytes [66]] = (1, [65], [Rd_error, Bytes [66]])"
    by (simp add: buf_sz_def)
  have r2: "read_events (buf_sz - 1) [Rd_error, Bytes [66]] = (- 1, [], [Bytes [66]])"
    by simp
  have c: "chunk_out ?E 1 [65] = [65, 0, 0, 0]"
    by (simp add: chunk_out_def quiet_env_def)
  have l: "convert_loop ?E [Bytes [65], Rd_error, Bytes [66]] Stdout 0 ?s = (Return 4, ?s4)"
    by (simp add: convert_loop_step[OF r1] convert_loop_step[OF r2] c sys_write_stdout_full
                  before_write_def log_def buf_sz_def)
  have pb: "publish ?E Stdout [] ?s4 = (Return (), ?s4)"
    by (simp add: publish_def)
  have sh: "show_int 4 = ''4''"
    by (simp add: show_int_def)
  from reads_4095_and_ends_on_nonpositive_read[OF p i o l]
  have "try_block ?E ?s =
          (case publish ?E Stdout [] ?s4 of
             (Return u, s5) \<Rightarrow>
               (Return None, cerr (''Written: '' @ show_int (sint (4 :: 64 word)) @ '' bytes'' @ nl) s5)
           | (Exit v, s5) \<Rightarrow> (Exit v, s5)
           | (Throw e, s5) \<Rightarrow> (Throw e, s5))"
    by blast
  then have "try_block ?E ?s = (Return None, cerr (''Written: 4 bytes'' @ nl) ?s4)"
    by (simp add: pb sh)
  with l show ?thesis
    by (simp add: cerr_def)
qed

subsection \<open>The converter's count of unconsumed input\<close>











subsection \<open>Empty input\<close>

lemma sys_mkstemp_Some:
  "sys_mkstemp E t s = (Some p, s') \<Longrightarrow>
     fs s p = None \<and>
     s' = set_fs ((fs s)(p \<mapsto> \<lparr>content = [], perm = 384\<rparr>)) (log (Sys_mkstemp t) s)"
proof -
  have tn: "try_names pre f vs = Some p \<Longrightarrow> f p = None" for pre f vs
    by (induction vs) (auto split: if_splits)
  show "sys_mkstemp E t s = (Some p, s') \<Longrightarrow> ?thesis"
    by (auto simp: sys_mkstemp_def Let_def split: if_splits option.splits dest: tn)
qed

lemma set_fs_simps [simp]:
  "fs (set_fs f s) = f" "hist (set_fs f s) = hist s @ [f]" "trace (set_fs f s) = trace s"
  "stderr (set_fs f s) = stderr s" "stdout (set_fs f s) = stdout s"
  "outfile (set_fs f s) = outfile s" "wr_sched (set_fs f s) = wr_sched s"
  by (simp_all add: set_fs_def)

lemma cerr_simps [simp]:
  "fs (cerr t s) = fs s" "hist (cerr t s) = hist s" "trace (cerr t s) = trace s"
  "stderr (cerr t s) = stderr s @ t" "stdout (cerr t s) = stdout s"
  "outfile (cerr t s) = outfile s" "wr_sched (cerr t s) = wr_sched s"
  by (simp_all add: cerr_def)

lemma mode_744: "S_IRWXU OR S_IRGRP OR S_IROTH = 484"
  by (simp add: S_IRWXU_def S_IRGRP_def S_IROTH_def)

lemma publish_ok:
  assumes "outfile s \<noteq> []" and "fs s tmpfile = Some f"
      and "\<not> chmod_fails E" and "\<not> rename_fails E"
  shows "\<exists>s'. publish E out_fd tmpfile s = (Return (), s') \<and>
              fs s' (outfile s) = Some (f\<lparr>perm := 484\<rparr>) \<and>
              (tmpfile \<noteq> outfile s \<longrightarrow> fs s' tmpfile = None) \<and>
              (\<forall>q. q \<noteq> tmpfile \<and> q \<noteq> outfile s \<longrightarrow> fs s' q = fs s q) \<and>
              stderr s' = stderr s \<and> stdout s' = stdout s \<and> outfile s' = outfile s \<and>
              trace s' = trace s @ [Sys_close out_fd, Sys_chmod tmpfile 484,
                                    Sys_rename tmpfile (outfile s)]"
  using assms
  by (auto simp: publish_def sys_chmod_def sys_rename_def Let_def mode_744)

lemma show_zero [simp]: "show_int 0 = ''0''"
  by (simp add: show_int_def)

text \<open>
  C6: when the first \<^verbatim>\<open>read\<close> returns 0, a run without an output path ends by
  printing \<^verbatim>\<open>Written: 0 bytes\<close> on standard error, and this is all it does after
  the read. With an output path, once \<^verbatim>\<open>mkstemp\<close> has made the temporary file and
  when \<^verbatim>\<open>chmod\<close> and \<^verbatim>\<open>rename\<close> succeed, the publish step is still carried
  out: the run closes, sets the permissions, renames, prints the same line, and the
  output path ends up as an empty file with mode 0744 (484).
\<close>

theorem empty_input_reports_zero_and_publishes:
  assumes "parse_args E (argv0 s) VERSION s = (Return n, s1)"
      and "open_input E n s1 = (Return in_fd, s2)"
      and "fst (read_events (buf_sz - 1) in_fd) = 0"
  shows "(outfile s2 = [] \<longrightarrow>
            main E s = (0, cerr (''Written: 0 bytes'' @ nl) (log (Sys_read 4095) s2))) \<and>
         (\<forall>tmpfile s3.
            outfile s2 \<noteq> [] \<and>
            sys_mkstemp E (take 254 (get_basedir (outfile s2) @ ''sconv-XXXXXX'')) s2 =
              (Some tmpfile, s3) \<and>
            \<not> chmod_fails E \<and> \<not> rename_fails E \<longrightarrow>
            (\<exists>s'. main E s = (0, s') \<and>
                  stderr s' = stderr s1 @ ''Written: 0 bytes'' @ nl \<and>
                  stdout s' = stdout s \<and>
                  fs s' (outfile s2) = Some \<lparr>content = [], perm = 484\<rparr> \<and>
                  trace s' = trace s3 @ [Sys_read 4095, Sys_close (Tmp_fd tmpfile),
                                         Sys_chmod tmpfile 484,
                                         Sys_rename tmpfile (outfile s2)]))"
proof -
  obtain rv buf in_fd' where r: "read_events (buf_sz - 1) in_fd = (rv, buf, in_fd')"
    by (cases "read_events (buf_sz - 1) in_fd")
  with assms(3) have rv: "rv = 0" by simp
  have loop: "convert_loop E in_fd out_fd 0 s' = (Return 0, log (Sys_read 4095) s')" for out_fd s'
    by (simp add: convert_loop_step[OF r] rv buf_sz_def)
  note o = open_input_world[OF assms(2)]
  have w: "same_world s s1" using assms(1) by (rule parse_args_world)
  have a: "main E s = (0, cerr (''Written: 0 bytes'' @ nl) (log (Sys_read 4095) s2))"
    if "outfile s2 = []"
    using that assms(1,2)
    by (simp add: main_def handlers_def try_block_def open_output_def loop publish_def)
  have b: "\<exists>s'. main E s = (0, s') \<and>
                  stderr s' = stderr s1 @ ''Written: 0 bytes'' @ nl \<and>
                  stdout s' = stdout s \<and>
                  fs s' (outfile s2) = Some \<lparr>content = [], perm = 484\<rparr> \<and>
                  trace s' = trace s3 @ [Sys_read 4095, Sys_close (Tmp_fd tmpfile),
                                         Sys_chmod tmpfile 484,
                                         Sys_rename tmpfile (outfile s2)]"
    if h: "outfile s2 \<noteq> []"
      "sys_mkstemp E (take 254 (get_basedir (outfile s2) @ ''sconv-XXXXXX'')) s2 = (Some tmpfile, s3)"
      "\<not> chmod_fails E" "\<not> rename_fails E"
    for tmpfile s3
  proof -
    note m = sys_mkstemp_Some[OF h(2)]
    let ?s4 = "log (Sys_read 4095) s3"
    have f4: "fs ?s4 tmpfile = Some \<lparr>content = [], perm = 384\<rparr>" and o4: "outfile ?s4 = outfile s2"
      using m by simp_all
    from publish_ok[OF _ f4 h(3,4), of "Tmp_fd tmpfile"] h(1) o4
    obtain s5 where p: "publish E (Tmp_fd tmpfile) tmpfile ?s4 = (Return (), s5)"
      and f5: "fs s5 (outfile s2) = Some \<lparr>content = [], perm = 484\<rparr>"
      and e5: "stderr s5 = stderr ?s4" "stdout s5 = stdout ?s4"
      and t5: "trace s5 = trace ?s4 @ [Sys_close (Tmp_fd tmpfile), Sys_chmod tmpfile 484,
                                    Sys_rename tmpfile (outfile s2)]"
      by auto
    have "main E s = (0, cerr (''Written: 0 bytes'' @ nl) s5)"
      using h(1,2) assms(1,2)
      by (simp add: main_def handlers_def try_block_def open_output_def loop p)
    then show ?thesis
      using f5 e5 t5 m o w by (simp add: same_world_def)
  qed
  show ?thesis
    using a b by blast
qed

lemma gen_name_0 [simp]: "gen_name 0 = ''aaaaaa''"
  by (simp add: gen_name_def letters_def upt_conv_Cons)

lemma mkstemp_first_name:
  assumes "tmp_rand E = 0 # vs" and "\<not> tmp_denied E" and "fs s (pre @ ''aaaaaa'') = None"
  shows "sys_mkstemp E (pre @ ''XXXXXX'') s =
           (Some (pre @ ''aaaaaa''),
            set_fs ((fs s)(pre @ ''aaaaaa'' \<mapsto> \<lparr>content = [], perm = 384\<rparr>))
              (log (Sys_mkstemp (pre @ ''XXXXXX'')) s))"
  using assms by (simp add: sys_mkstemp_def Let_def)

lemma get_basedir_plain [simp]: "CHR ''/'' \<notin> set p \<Longrightarrow> get_basedir p = []"
  by (simp add: get_basedir_def strrchr_def)

theorem empty_input_reports_zero_and_publishes_witness:
  "main quiet_env (start ''sconv'' [] Map.empty []) =
     (0, (start ''sconv'' [] Map.empty [])\<lparr>stderr := ''Written: 0 bytes'' @ nl, trace := [Sys_read 4095]\<rparr>) \<and>
   (\<exists>s'. main quiet_env (start ''sconv'' [''-o'', ''out''] Map.empty []) = (0, s') \<and>
         stderr s' = ''Written: 0 bytes'' @ nl \<and> stdout s' = [] \<and>
         fs s' ''out'' = Some \<lparr>content = [], perm = 484\<rparr> \<and>
         trace s' = [Sys_mkstemp ''sconv-XXXXXX'', Sys_read 4095, Sys_close (Tmp_fd ''sconv-aaaaaa''),
                     Sys_chmod ''sconv-aaaaaa'' 484, Sys_rename ''sconv-aaaaaa'' ''out''])"
proof -
  let ?a = "start ''sconv'' [] Map.empty []"
  let ?b = "start ''sconv'' [''-o'', ''out''] Map.empty []"
  let ?b1 = "?a\<lparr>outfile := ''out'', taken := [''-o'', ''out'']\<rparr>"
  let ?b3 = "set_fs ((fs ?b1)(''sconv-aaaaaa'' \<mapsto> \<lparr>content = [], perm = 384\<rparr>))
               (log (Sys_mkstemp ''sconv-XXXXXX'') ?b1)"
  have r: "fst (read_events (buf_sz - 1) []) = 0" by simp
  have pa: "parse_args quiet_env (argv0 ?a) VERSION ?a = (Return 1, ?a)"
    by (simp add: parse_no_args)
  have ia: "open_input quiet_env 1 ?a = (Return [], ?a)"
    by (simp add: open_input_def argv_def)
  have pb: "parse_args quiet_env (argv0 ?b) VERSION ?b = (Return 3, ?b1)"
    by (simp add: parse_o_out)
  have ib: "open_input quiet_env 3 ?b1 = (Return [], ?b1)"
    by (simp add: open_input_def argv_def)
  have m: "sys_mkstemp quiet_env (take 254 (get_basedir (outfile ?b1) @ ''sconv-XXXXXX'')) ?b1 =
             (Some ''sconv-aaaaaa'', ?b3)"
    using mkstemp_first_name[of quiet_env "[]" ?b1 "''sconv-''"] by simp
  have "main quiet_env ?a = (0, cerr (''Written: 0 bytes'' @ nl) (log (Sys_read 4095) ?a))"
    using empty_input_reports_zero_and_publishes[OF pa ia r] by simp
  moreover have "\<exists>s'. main quiet_env ?b = (0, s') \<and>
         stderr s' = stderr ?b1 @ ''Written: 0 bytes'' @ nl \<and> stdout s' = stdout ?b \<and>
         fs s' (outfile ?b1) = Some \<lparr>content = [], perm = 484\<rparr> \<and>
         trace s' = trace ?b3 @ [Sys_read 4095, Sys_close (Tmp_fd ''sconv-aaaaaa''),
                     Sys_chmod ''sconv-aaaaaa'' 484, Sys_rename ''sconv-aaaaaa'' (outfile ?b1)]"
    using empty_input_reports_zero_and_publishes[OF pb ib r] m by simp
  ultimately show ?thesis
    by (simp add: cerr_def log_def)
qed

subsection \<open>\<^verbatim>\<open>--help\<close>\<close>


lemma parse_o_path:
  "parse_args E p VERSION (start p [''-o'', x] f ws) =
     (Return 3, (start p [] f ws)\<lparr>outfile := x, taken := [''-o'', x]\<rparr>)"
  by (simp add: parse_args.simps getopt_long_def short_option_def getopt_done_def optind_def)







subsection \<open>A run with one more option in front\<close>


lemma shifted_commute:
  "cerr t (shifted a d s) = shifted a d (cerr t s)"
  "log c (shifted a d s) = shifted a d (log c s)"
  "set_fs f (shifted a d s) = shifted a d (set_fs f s)"
  "(shifted a d s)\<lparr>outfile := x\<rparr> = shifted a d (s\<lparr>outfile := x\<rparr>)"
  "(shifted a d s)\<lparr>nextchar := y\<rparr> = shifted a d (s\<lparr>nextchar := y\<rparr>)"
  "(shifted a d s)\<lparr>rest := r\<rparr> = shifted a d (s\<lparr>rest := r\<rparr>)"
  "(shifted a d s)\<lparr>wr_sched := w\<rparr> = shifted a d (s\<lparr>wr_sched := w\<rparr>)"
  "(shifted a d s)\<lparr>stdout := o1\<rparr> = shifted a d (s\<lparr>stdout := o1\<rparr>)"
  by (simp_all add: shifted_def cerr_def log_def set_fs_def)

lemma getopt_error_shifted:
  "getopt_error prog msg (shifted a d s) =
     (fst (getopt_error prog msg s), shifted a d (snd (getopt_error prog msg s)))"
  by (simp add: getopt_error_def shifted_commute)



















subsection \<open>An option character that is not in the option string\<close>







subsection \<open>The name of the temporary file\<close>

lemma written_append [simp]: "written (xs @ ys) = written xs @ written ys"
  by (induction xs rule: written.induct) auto

lemma strrchr_append:
  "c \<notin> set b \<Longrightarrow> strrchr (d @ c # b) c = Some (length d)"
proof -
  assume "c \<notin> set b"
  then have "takeWhile (\<lambda>x. x \<noteq> c) (rev b @ c # rev d) = rev b"
    by (subst takeWhile_append2) auto
  then show ?thesis
    by (simp add: strrchr_def)
qed

lemma get_basedir_append:
  "CHR ''/'' \<notin> set b \<Longrightarrow> get_basedir (d @ CHR ''/'' # b) = d @ ''/''"
  by (simp add: get_basedir_def strrchr_append)





lemma try_names_Some:
  "try_names pre f vs = Some p \<Longrightarrow> f p = None \<and> (\<exists>v \<in> set vs. p = pre @ gen_name v)"
  by (induction vs) (auto split: if_splits)


lemma template_fits:
  "length d \<le> 242 \<Longrightarrow> take 254 (d @ ''sconv-XXXXXX'') = d @ ''sconv-XXXXXX''"
  by simp


subsection \<open>What the loop does to the temporary file\<close>

lemma sys_write_tmp:
  assumes "sys_write (Tmp_fd p) bs s = (w, s')" and "fs s p = Some f"
  shows "\<exists>bs'. fs s' = (fs s)(p \<mapsto> f\<lparr>content := content f @ bs'\<rparr>) \<and>
               (hist s' = hist s \<or> hist s' = hist s @ [fs s']) \<and>
               (w = int (length bs) \<longrightarrow> bs' = bs) \<and>
               outfile s' = outfile s \<and> stderr s' = stderr s \<and> stdout s' = stdout s \<and>
               trace s' = trace s @ [Sys_write (Tmp_fd p) bs]"
proof (cases "wr_sched s")
  case Nil
  with assms show ?thesis
    by (intro exI[of _ bs]) (auto simp: sys_write_def Let_def put_bytes_def)
next
  case (Cons o1 ws)
  show ?thesis
  proof (cases o1)
    case (Wr_short k)
    with assms Cons show ?thesis
      by (intro exI[of _ "take k bs"])
         (auto simp: sys_write_def Let_def put_bytes_def min_def split: if_splits)
  next
    case Wr_error
    have "(fs s)(p \<mapsto> f\<lparr>content := content f @ []\<rparr>) = fs s"
      using assms(2) by (simp add: fun_upd_idem)
    with assms Cons Wr_error show ?thesis
      by (intro exI[of _ "[]"]) (auto simp: sys_write_def Let_def)
  qed
qed

lemma convert_loop_tmp:
  assumes "convert_loop E in_fd (Tmp_fd p) tot s = (r, s')" and "fs s p = Some f"
  shows "\<exists>bs new tr. fs s' = (fs s)(p \<mapsto> f\<lparr>content := content f @ bs\<rparr>) \<and>
           hist s' = hist s @ new \<and> (\<forall>g \<in> set new. \<forall>q. q \<noteq> p \<longrightarrow> g q = fs s q) \<and>
           trace s' = trace s @ tr \<and> ((\<exists>t. r = Return t) \<longrightarrow> written tr = bs) \<and>
           outfile s' = outfile s \<and> stderr s' = stderr s \<and> stdout s' = stdout s"
  using assms
proof (induction in_fd tot s arbitrary: f rule: convert_loop_induct[where E = E and out_fd = "Tmp_fd p"])
  case (step in_fd tot s)
  obtain rv buf in_fd' where r: "read_events (buf_sz - 1) in_fd = (rv, buf, in_fd')"
    by (cases "read_events (buf_sz - 1) in_fd")
  obtain w s4 where w: "sys_write (Tmp_fd p) (chunk_out E rv buf) (before_write E rv buf s) = (w, s4)"
    by (cases "sys_write (Tmp_fd p) (chunk_out E rv buf) (before_write E rv buf s)")
  have f0: "(fs s)(p \<mapsto> f\<lparr>content := content f @ []\<rparr>) = fs s"
    using step.prems(2) by (simp add: fun_upd_idem)
  from sys_write_tmp[OF w] step.prems(2)
  obtain bs' where b: "fs s4 = (fs s)(p \<mapsto> f\<lparr>content := content f @ bs'\<rparr>)"
    "hist s4 = hist s \<or> hist s4 = hist s @ [fs s4]"
    "w = int (length (chunk_out E rv buf)) \<longrightarrow> bs' = chunk_out E rv buf"
    "outfile s4 = outfile s" "stderr s4 = stderr s" "stdout s4 = stdout s"
    "trace s4 = trace s @ [Sys_read (buf_sz - 1), Sys_iconv_open,
        Sys_iconv buf (nat rv * sizeof_wchar_t E), Sys_write (Tmp_fd p) (chunk_out E rv buf)]"
    by auto
  have h4: "\<exists>new. hist s4 = hist s @ new \<and> (\<forall>g \<in> set new. \<forall>q. q \<noteq> p \<longrightarrow> g q = fs s q)"
    using b(1,2) by (elim disjE) (auto intro: exI[of _ "[]"] exI[of _ "[fs s4]"])
  consider (stop) "rv \<le> 0" | (noconv) "0 < rv" "\<not> iconv_open_ok E"
    | (short) "0 < rv" "iconv_open_ok E" "w \<noteq> int (length (chunk_out E rv buf))"
    | (go) "0 < rv" "iconv_open_ok E" "w = int (length (chunk_out E rv buf))"
    by fastforce
  then show ?case
  proof cases
    case stop
    with step.prems(1) have "s' = log (Sys_read (buf_sz - 1)) s"
      by (simp add: convert_loop_step[OF r])
    then show ?thesis
      using f0 by (intro exI[of _ "[]"] exI[of _ "[Sys_read (buf_sz - 1)]"]) simp
  next
    case noconv
    with step.prems(1) have "s' = log Sys_iconv_open (log (Sys_read (buf_sz - 1)) s)"
      and "r = Throw (Runtime_error (''This system can'' @ sq @ ''t convert from UTF-8 to WCHAR_T''))"
      by (simp_all add: convert_loop_step[OF r])
    then show ?thesis
      using f0 by (intro exI[of _ "[]"] exI[of _ "[Sys_read (buf_sz - 1), Sys_iconv_open]"]) simp
  next
    case short
    with step.prems(1) have "s' = s4" and "\<not> (\<exists>t. r = Return t)"
      by (auto simp: convert_loop_step[OF r] w)
    then show ?thesis
      using b h4 by (intro exI[of _ bs']) auto
  next
    case go
    then have rec: "convert_loop E in_fd' (Tmp_fd p) (tot + word_of_nat (length (chunk_out E rv buf))) s4 = (r, s')"
      using step.prems(1) by (simp add: convert_loop_step[OF r] w)
    have bs': "bs' = chunk_out E rv buf" using b(3) go(3) by simp
    have f4: "fs s4 p = Some (f\<lparr>content := content f @ bs'\<rparr>)" using b(1) by simp
    from step.IH[OF r go(1,2) w[unfolded go(3)] rec f4]
    obtain bs new tr where i:
      "fs s' = (fs s4)(p \<mapsto> f\<lparr>content := content f @ bs'\<rparr>\<lparr>content := content (f\<lparr>content := content f @ bs'\<rparr>) @ bs\<rparr>)"
      "hist s' = hist s4 @ new" "\<forall>g \<in> set new. \<forall>q. q \<noteq> p \<longrightarrow> g q = fs s4 q"
      "trace s' = trace s4 @ tr" "(\<exists>t. r = Return t) \<longrightarrow> written tr = bs"
      "outfile s' = outfile s4" "stderr s' = stderr s4" "stdout s' = stdout s4"
      by blast
    from h4 obtain new0 where n0: "hist s4 = hist s @ new0"
      "\<forall>g \<in> set new0. \<forall>q. q \<noteq> p \<longrightarrow> g q = fs s q" by blast
    have 1: "fs s' = (fs s)(p \<mapsto> f\<lparr>content := content f @ (bs' @ bs)\<rparr>)"
      using i(1) b(1) by simp
    have 2: "hist s' = hist s @ (new0 @ new)" using i(2) n0(1) by simp
    have 3: "\<forall>g \<in> set (new0 @ new). \<forall>q. q \<noteq> p \<longrightarrow> g q = fs s q"
      using i(3) n0(2) b(1) by auto
    have 4: "trace s' = trace s @ ([Sys_read (buf_sz - 1), Sys_iconv_open,
        Sys_iconv buf (nat rv * sizeof_wchar_t E), Sys_write (Tmp_fd p) (chunk_out E rv buf)] @ tr)"
      using i(4) b(7) by simp
    have 5: "(\<exists>t. r = Return t) \<longrightarrow> written ([Sys_read (buf_sz - 1), Sys_iconv_open,
        Sys_iconv buf (nat rv * sizeof_wchar_t E), Sys_write (Tmp_fd p) (chunk_out E rv buf)] @ tr) = bs' @ bs"
      using i(5) bs' by simp
    have 6: "outfile s' = outfile s \<and> stderr s' = stderr s \<and> stdout s' = stdout s"
      using i(6,7,8) b(4,5,6) by simp
    show ?thesis
      by (rule exI[of _ "bs' @ bs"], rule exI[of _ "new0 @ new"],
          rule exI[of _ "[Sys_read (buf_sz - 1), Sys_iconv_open,
            Sys_iconv buf (nat rv * sizeof_wchar_t E), Sys_write (Tmp_fd p) (chunk_out E rv buf)] @ tr"])
         (intro conjI 1 2 3 4 5 6[THEN conjunct1] 6[THEN conjunct2, THEN conjunct1]
            6[THEN conjunct2, THEN conjunct2])
  qed
qed

subsection \<open>The publish step\<close>

lemma publish_chmod_fails:
  assumes "outfile s \<noteq> []" and "chmod_fails E"
  shows "publish E out_fd tmpfile s =
           (Throw (Runtime_error (fatal_messages ! 2)),
            log (Sys_chmod tmpfile 484) (log (Sys_close out_fd) s))"
  using assms
  by (simp add: publish_def sys_chmod_def Let_def mode_744 fatal_messages_def split: option.splits)

lemma publish_rename_fails:
  assumes "outfile s \<noteq> []" and "fs s tmpfile = Some f" and "\<not> chmod_fails E" and "rename_fails E"
  shows "publish E out_fd tmpfile s =
           (Throw (Runtime_error (fatal_messages ! 3)),
            log (Sys_rename tmpfile (outfile s))
              (set_fs ((fs s)(tmpfile \<mapsto> f\<lparr>perm := 484\<rparr>))
                 (log (Sys_chmod tmpfile 484) (log (Sys_close out_fd) s))))"
  using assms
  by (simp add: publish_def sys_chmod_def sys_rename_def Let_def mode_744 fatal_messages_def)




subsection \<open>The output path during a run\<close>

lemma sys_mkstemp_in_temp_names:
  assumes "sys_mkstemp E (take 254 (get_basedir path @ ''sconv-XXXXXX'')) s = (Some p, s')"
  shows "p \<in> set (temp_names E path)"
  using assms
  by (auto simp: sys_mkstemp_def temp_names_def Let_def split: if_splits option.splits
           dest!: try_names_Some)

lemma publish_success:
  assumes "outfile s \<noteq> []" and "fs s tmpfile = Some f0"
      and "\<not> chmod_fails E" and "\<not> rename_fails E" and "tmpfile \<noteq> outfile s"
  shows "\<exists>s'. publish E out_fd tmpfile s = (Return (), s') \<and>
           fs s' = (fs s)(tmpfile := None, outfile s \<mapsto> f0\<lparr>perm := 484\<rparr>) \<and>
           hist s' = hist s @ [(fs s)(tmpfile \<mapsto> f0\<lparr>perm := 484\<rparr>), fs s'] \<and>
           trace s' = trace s @ [Sys_close out_fd, Sys_chmod tmpfile 484,
                                 Sys_rename tmpfile (outfile s)] \<and>
           outfile s' = outfile s"
  using assms
  by (auto simp: publish_def sys_chmod_def sys_rename_def Let_def mode_744 fun_upd_twist)

lemma handlers_throw:
  "handlers (Throw e, s) = (0, cerr (case e of Runtime_error m \<Rightarrow> ''Exception: '' @ m @ nl
                                     | Other_exception \<Rightarrow> ''Unknown exception'' @ nl) s)"
  by (simp add: handlers_def split: exn.splits)

lemma convert_loop_outfile:
  "convert_loop E in_fd out_fd tot s = (r, s') \<Longrightarrow> outfile s' = outfile s"
proof (induction in_fd tot s rule: convert_loop_induct[where E = E and out_fd = out_fd])
  case (step in_fd tot s)
  obtain rv buf in_fd' where r: "read_events (buf_sz - 1) in_fd = (rv, buf, in_fd')"
    by (cases "read_events (buf_sz - 1) in_fd")
  obtain w s4 where w: "sys_write out_fd (chunk_out E rv buf) (before_write E rv buf s) = (w, s4)"
    by (cases "sys_write out_fd (chunk_out E rv buf) (before_write E rv buf s)")
  have o4: "outfile s4 = outfile s"
    using sys_write_stderr[OF w] by simp
  show ?case
  proof (cases "0 < rv \<and> iconv_open_ok E \<and> w = int (length (chunk_out E rv buf))")
    case True
    then have w': "sys_write out_fd (chunk_out E rv buf) (before_write E rv buf s) =
                 (int (length (chunk_out E rv buf)), s4)"
      using w by simp
    from True step.prems
    have "convert_loop E in_fd' out_fd (tot + word_of_nat (length (chunk_out E rv buf))) s4 = (r, s')"
      by (simp add: convert_loop_step[OF r] w)
    from step.IH[OF r _ _ w' this] True o4 show ?thesis by simp
  next
    case False
    then show ?thesis
      using step.prems o4 by (auto simp: convert_loop_step[OF r] w split: if_splits)
  qed
qed

lemma publish_outfile: "publish E out_fd tmpfile s = (r, s') \<Longrightarrow> outfile s' = outfile s"
  by (auto simp: publish_def sys_chmod_def sys_rename_def Let_def
           split: if_splits option.splits)

lemma open_output_outfile: "open_output E s = (r, s') \<Longrightarrow> outfile s' = outfile s"
  by (auto simp: open_output_def sys_mkstemp_def Let_def split: if_splits option.splits)

lemma handlers_outfile: "outfile (snd (handlers (r, s))) = outfile s"
  by (simp add: handlers_def split: result.splits option.splits exn.splits)

lemma try_block_outfile:
  "outfile (snd (try_block E s)) = outfile (snd (parse_args E (argv0 s) VERSION s))"
proof -
  obtain r1 s1 where p: "parse_args E (argv0 s) VERSION s = (r1, s1)"
    by (cases "parse_args E (argv0 s) VERSION s")
  show ?thesis
  proof (cases r1)
    case (Return n)
    obtain r2 s2 where i: "open_input E n s1 = (r2, s2)"
      by (cases "open_input E n s1")
    have o2: "outfile s2 = outfile s1" using open_input_world[OF i] by simp
    show ?thesis
    proof (cases r2)
      case (Return in_fd)
      note r2 = this
      obtain r3 s3 where o: "open_output E s2 = (r3, s3)"
        by (cases "open_output E s2")
      have o3: "outfile s3 = outfile s1" using open_output_outfile[OF o] o2 by simp
      show ?thesis
      proof (cases r3)
        case None
        then show ?thesis
          using p \<open>r1 = Return n\<close> i r2 o o3 by (simp add: try_block_def)
      next
        case (Some ft)
        obtain out_fd tmpfile where ft: "ft = (out_fd, tmpfile)" by (cases ft)
        obtain r4 s4 where l: "convert_loop E in_fd out_fd 0 s3 = (r4, s4)"
          by (cases "convert_loop E in_fd out_fd 0 s3")
        obtain r5 s5 where b: "publish E out_fd tmpfile s4 = (r5, s5)"
          by (cases "publish E out_fd tmpfile s4")
        have o4: "outfile s4 = outfile s1" using convert_loop_outfile[OF l] o3 by simp
        have o5: "outfile s5 = outfile s1" using publish_outfile[OF b] o4 by simp
        show ?thesis
          using p \<open>r1 = Return n\<close> i r2 o Some ft l b o4 o5
          by (cases r4; cases r5) (simp_all add: try_block_def)
      qed
    qed (use p \<open>r1 = Return n\<close> i o2 in \<open>simp_all add: try_block_def\<close>)
  qed (use p in \<open>simp_all add: try_block_def\<close>)
qed

lemma main_outfile:
  "outfile (snd (main E s)) = outfile (snd (parse_args E (argv0 s) VERSION s))"
  using handlers_outfile[of "fst (try_block E s)" "snd (try_block E s)"]
  by (simp add: main_def try_block_outfile)

text \<open>
  C1, as amended: take a run with an output path, and suppose \<^verbatim>\<open>mkstemp\<close> cannot
  give the temporary file the name of the output path itself (it cannot when the
  output path exists, or when the path is none of the names \<^verbatim>\<open>mkstemp\<close> may
  choose). Then in every state of the file system during the run but the last, the
  output path is as it was before the run. When the run goes through to the end, the
  last state is the one after the rename, in which the output path holds all the
  bytes the loop has written, with mode 0744. When it does not (an exception, a
  failing \<^verbatim>\<open>mkstemp\<close>, \<^verbatim>\<open>--help\<close>), the output path is as it was before the run
  in the last state too.
\<close>

theorem target_path_is_prior_or_final:
  assumes "tgt = outfile (snd (main E (start prog args f ws)))" and "tgt \<noteq> []"
      and "f tgt \<noteq> None \<or> tgt \<notin> set (temp_names E tgt)"
  shows "(\<forall>g \<in> set (butlast (hist (snd (main E (start prog args f ws))))). g tgt = f tgt) \<and>
         (fst (try_block E (start prog args f ws)) = Return None \<longrightarrow>
            hist (snd (main E (start prog args f ws))) \<noteq> [] \<and>
            last (hist (snd (main E (start prog args f ws)))) =
              fs (snd (main E (start prog args f ws))) \<and>
            fs (snd (main E (start prog args f ws))) tgt =
              Some \<lparr>content = written (trace (snd (main E (start prog args f ws)))), perm = 484\<rparr>) \<and>
         (fst (try_block E (start prog args f ws)) \<noteq> Return None \<longrightarrow>
            (\<forall>g \<in> set (hist (snd (main E (start prog args f ws)))). g tgt = f tgt) \<and>
            fs (snd (main E (start prog args f ws))) tgt = f tgt)"
proof -
  let ?s = "start prog args f ws"
  define Q where "Q ok s' \<longleftrightarrow>
     (\<forall>g \<in> set (butlast (hist s')). g tgt = f tgt) \<and>
     (ok \<longrightarrow> hist s' \<noteq> [] \<and> last (hist s') = fs s' \<and>
            fs s' tgt = Some \<lparr>content = written (trace s'), perm = 484\<rparr>) \<and>
     (\<not> ok \<longrightarrow> (\<forall>g \<in> set (hist s'). g tgt = f tgt) \<and> fs s' tgt = f tgt)" for ok and s' :: state
  have quiet: "Q False s'" if "\<forall>g \<in> set (hist s'). g tgt = f tgt" "fs s' tgt = f tgt" for s' :: state
    using that by (auto simp: Q_def dest: in_set_butlastD)
  have stopped: "Q (fst (try_block E ?s) = Return None) (snd (main E ?s))"
    if "try_block E ?s = (r, s')" "r \<noteq> Return None"
       "\<forall>g \<in> set (hist s'). g tgt = f tgt" "fs s' tgt = f tgt" for r s'
  proof -
    have "hist (snd (main E ?s)) = hist s' \<and> fs (snd (main E ?s)) = fs s'"
      using that(1,2)
      by (cases r) (auto simp: main_def handlers_def split: option.splits exn.splits)
    then show ?thesis
      using that quiet[of "snd (main E ?s)"] by simp
  qed
  obtain r1 s1 where p: "parse_args E (argv0 ?s) VERSION ?s = (r1, s1)"
    by (cases "parse_args E (argv0 ?s) VERSION ?s")
  have w1: "fs s1 = f" "hist s1 = []" "trace s1 = []"
    using parse_args_world[OF p] by (simp_all add: same_world_def)
  have o1: "outfile s1 = tgt"
    using assms(1) p by (simp add: main_outfile)
  have "Q (fst (try_block E ?s) = Return None) (snd (main E ?s))"
  proof (cases r1)
    case (Exit v)
    then have "try_block E ?s = (Exit v, s1)" using p by (simp add: try_block_def)
    from stopped[OF this] w1 show ?thesis by simp
  next
    case (Throw e)
    then have "try_block E ?s = (Throw e, s1)" using p by (simp add: try_block_def)
    from stopped[OF this] w1 show ?thesis by simp
  next
    case (Return n)
    note r1 = this
    obtain r2 s2 where i: "open_input E n s1 = (r2, s2)"
      by (cases "open_input E n s1")
    note o = open_input_world[OF i]
    have w2: "fs s2 = f" "hist s2 = []" "written (trace s2) = []" "outfile s2 = tgt"
      using o w1 o1 by simp_all
    show ?thesis
    proof (cases r2)
      case (Exit v)
      then have "try_block E ?s = (Exit v, s2)" using p r1 i by (simp add: try_block_def)
      from stopped[OF this] w2 show ?thesis by simp
    next
      case (Throw e)
      then have "try_block E ?s = (Throw e, s2)" using p r1 i by (simp add: try_block_def)
      from stopped[OF this] w2 show ?thesis by simp
    next
      case (Return in_fd)
      note r2 = this
      let ?t = "take 254 (get_basedir tgt @ ''sconv-XXXXXX'')"
      obtain mr s3 where m: "sys_mkstemp E ?t s2 = (mr, s3)"
        by (cases "sys_mkstemp E ?t s2")
      show ?thesis
      proof (cases mr)
        case None
        then have "try_block E ?s = (Return (Some 0), s3)"
          using p r1 i r2 m assms(2) w2(4) by (simp add: try_block_def open_output_def)
        moreover have "s3 = log (Sys_mkstemp ?t) s2"
          using m None by (simp add: sys_mkstemp_None)
        ultimately show ?thesis
          using stopped[of "Return (Some 0)" s3] w2 by simp
      next
        case (Some tmp)
        note ms = sys_mkstemp_Some[OF m[unfolded Some]]
        have tn: "tmp \<in> set (temp_names E tgt)"
          using m Some by (auto intro: sys_mkstemp_in_temp_names)
        have ne: "tmp \<noteq> tgt"
          using assms(3) tn ms w2(1) by auto
        let ?e = "\<lparr>content = [], perm = 384\<rparr>"
        have w3: "fs s3 = f(tmp \<mapsto> ?e)" "hist s3 = [f(tmp \<mapsto> ?e)]"
          "written (trace s3) = []" "outfile s3 = tgt" "fs s3 tmp = Some ?e"
          using ms w2 by simp_all
        have oo: "open_output E s2 = (Some (Tmp_fd tmp, tmp), s3)"
          using m Some assms(2) w2(4) by (simp add: open_output_def)
        obtain r4 s4 where l: "convert_loop E in_fd (Tmp_fd tmp) 0 s3 = (r4, s4)"
          by (cases "convert_loop E in_fd (Tmp_fd tmp) 0 s3")
        from convert_loop_tmp[OF l w3(5)]
        obtain bs new tr where c:
          "fs s4 = (fs s3)(tmp \<mapsto> \<lparr>content = bs, perm = 384\<rparr>)"
          "hist s4 = hist s3 @ new" "\<forall>g \<in> set new. \<forall>q. q \<noteq> tmp \<longrightarrow> g q = fs s3 q"
          "trace s4 = trace s3 @ tr" "(\<exists>t. r4 = Return t) \<longrightarrow> written tr = bs"
          "outfile s4 = outfile s3"
          by auto
        have h4: "\<forall>g \<in> set (hist s4). g tgt = f tgt"
          using c(2,3) w3(1,2) ne by auto
        have f4: "fs s4 tgt = f tgt" "fs s4 tmp = Some \<lparr>content = bs, perm = 384\<rparr>"
          "outfile s4 = tgt" "outfile s4 \<noteq> []"
          using c(1,6) w3 ne assms(2) by simp_all
        show ?thesis
        proof (cases r4)
          case (Exit v)
          then show ?thesis using l convert_loop_no_exit by auto
        next
          case (Throw e)
          then have "try_block E ?s = (Throw e, s4)"
            using p r1 i r2 oo l by (simp add: try_block_def)
          from stopped[OF this] h4 f4 show ?thesis by simp
        next
          case (Return tot)
          then have wr: "written (trace s4) = bs"
            using c(4,5) w3(3) by simp
          note tb = try_block_after_loop[OF p[unfolded r1] i[unfolded r2] oo l[unfolded Return]]
          consider (chmod) "chmod_fails E" | (rename) "\<not> chmod_fails E" "rename_fails E"
            | (ok) "\<not> chmod_fails E" "\<not> rename_fails E"
            by blast
          then show ?thesis
          proof cases
            case chmod
            have "try_block E ?s = (Throw (Runtime_error (fatal_messages ! 2)),
                    log (Sys_chmod tmp 484) (log (Sys_close (Tmp_fd tmp)) s4))"
              by (simp add: tb publish_chmod_fails[OF f4(4) chmod])
            from stopped[OF this] h4 f4 show ?thesis by simp
          next
            case rename
            have "try_block E ?s = (Throw (Runtime_error (fatal_messages ! 3)),
                    log (Sys_rename tmp (outfile s4))
                      (set_fs ((fs s4)(tmp \<mapsto> \<lparr>content = bs, perm = 384\<rparr>\<lparr>perm := 484\<rparr>))
                        (log (Sys_chmod tmp 484) (log (Sys_close (Tmp_fd tmp)) s4))))"
              by (simp add: tb publish_rename_fails[OF f4(4) f4(2) rename])
            from stopped[OF this] h4 f4 ne show ?thesis by simp
          next
            case ok
            from publish_success[OF f4(4) f4(2) ok, of "Tmp_fd tmp"] ne f4(3)
            obtain s5 where pb: "publish E (Tmp_fd tmp) tmp s4 = (Return (), s5)"
              and q: "fs s5 = (fs s4)(tmp := None, tgt \<mapsto> \<lparr>content = bs, perm = 484\<rparr>)"
                "hist s5 = hist s4 @ [(fs s4)(tmp \<mapsto> \<lparr>content = bs, perm = 484\<rparr>), fs s5]"
                "trace s5 = trace s4 @ [Sys_close (Tmp_fd tmp), Sys_chmod tmp 484, Sys_rename tmp tgt]"
              by auto
            have t: "try_block E ?s =
                (Return None, cerr (''Written: '' @ show_int (sint tot) @ '' bytes'' @ nl) s5)"
              by (simp add: tb pb)
            have "Q True (cerr (''Written: '' @ show_int (sint tot) @ '' bytes'' @ nl) s5)"
              using q h4 f4(1) ne wr by (auto simp: Q_def butlast_append)
            then show ?thesis
              by (simp add: t main_def handlers_def)
          qed
        qed
      qed
    qed
  qed
  then show ?thesis
    unfolding Q_def by blast
qed

lemma sys_write_tmp_full:
  assumes "wr_sched s = []" and "fs s p = Some f"
  shows "sys_write (Tmp_fd p) bs s =
           (int (length bs),
            set_fs ((fs s)(p \<mapsto> f\<lparr>content := content f @ bs\<rparr>)) (log (Sys_write (Tmp_fd p) bs) s))"
  using assms by (simp add: sys_write_def Let_def put_bytes_def log_def)

lemma sys_write_tmp_short:
  assumes "wr_sched s = Wr_short k # ws" and "fs s p = Some f"
  shows "sys_write (Tmp_fd p) bs s =
           (int (min k (length bs)),
            set_fs ((fs s)(p \<mapsto> f\<lparr>content := content f @ take k bs\<rparr>))
              ((log (Sys_write (Tmp_fd p) bs) s)\<lparr>wr_sched := ws\<rparr>))"
  using assms by (simp add: sys_write_def Let_def put_bytes_def log_def set_fs_def)

lemma chunk_out_quiet [simp]:
  "chunk_out (quiet_env\<lparr>stdin := i\<rparr>) 1 [65] = [65, 0, 0, 0]"
  "chunk_out (quiet_env\<lparr>stdin := i\<rparr>) 1 [66] = [66, 0, 0, 0]"
  by (simp_all add: chunk_out_def quiet_env_def)

theorem target_path_is_prior_or_final_witness:
  "length (hist (snd (main (quiet_env\<lparr>stdin := [Bytes [65]]\<rparr>)
      (start ''sconv'' [''-o'', ''d/out''] [''d/out'' \<mapsto> \<lparr>content = [1], perm = 420\<rparr>] [])))) = 4 \<and>
   (hist (snd (main (quiet_env\<lparr>stdin := [Bytes [65]]\<rparr>)
      (start ''sconv'' [''-o'', ''d/out''] [''d/out'' \<mapsto> \<lparr>content = [1], perm = 420\<rparr>] []))) ! 0) ''d/out'' =
     Some \<lparr>content = [1], perm = 420\<rparr> \<and>
   (hist (snd (main (quiet_env\<lparr>stdin := [Bytes [65]]\<rparr>)
      (start ''sconv'' [''-o'', ''d/out''] [''d/out'' \<mapsto> \<lparr>content = [1], perm = 420\<rparr>] []))) ! 1) ''d/out'' =
     Some \<lparr>content = [1], perm = 420\<rparr> \<and>
   (hist (snd (main (quiet_env\<lparr>stdin := [Bytes [65]]\<rparr>)
      (start ''sconv'' [''-o'', ''d/out''] [''d/out'' \<mapsto> \<lparr>content = [1], perm = 420\<rparr>] []))) ! 2) ''d/out'' =
     Some \<lparr>content = [1], perm = 420\<rparr> \<and>
   (hist (snd (main (quiet_env\<lparr>stdin := [Bytes [65]]\<rparr>)
      (start ''sconv'' [''-o'', ''d/out''] [''d/out'' \<mapsto> \<lparr>content = [1], perm = 420\<rparr>] []))) ! 3) ''d/out'' =
     Some \<lparr>content = [65, 0, 0, 0], perm = 484\<rparr> \<and>
   fs (snd (main (quiet_env\<lparr>stdin := [Bytes [65]]\<rparr>)
      (start ''sconv'' [''-o'', ''d/out''] [''d/out'' \<mapsto> \<lparr>content = [1], perm = 420\<rparr>] []))) ''d/out'' =
     Some \<lparr>content = [65, 0, 0, 0], perm = 484\<rparr>"
proof -
  let ?E = "quiet_env\<lparr>stdin := [Bytes [65]]\<rparr>"
  let ?f = "[''d/out'' \<mapsto> \<lparr>content = [1], perm = 420\<rparr>]"
  let ?s = "start ''sconv'' [''-o'', ''d/out''] ?f []"
  let ?s2 = "(start ''sconv'' [] ?f [])\<lparr>outfile := ''d/out'', taken := [''-o'', ''d/out'']\<rparr>"
  let ?t = "''d/sconv-aaaaaa''"
  let ?s3 = "set_fs ((fs ?s2)(?t \<mapsto> \<lparr>content = [], perm = 384\<rparr>))
               (log (Sys_mkstemp ''d/sconv-XXXXXX'') ?s2)"
  let ?H = "hist (snd (main ?E ?s))"
  have b: "get_basedir ''d/out'' = ''d/''"
    using get_basedir_append[of "''out''" "''d''"] by simp
  have m: "sys_mkstemp ?E ''d/sconv-XXXXXX'' ?s2 = (Some ?t, ?s3)"
    using mkstemp_first_name[of ?E "[]" ?s2 "''d/sconv-''"] by simp
  have oo: "open_output ?E ?s2 = (Some (Tmp_fd ?t, ?t), ?s3)"
    by (simp add: open_output_def b m)
  have r1: "read_events (buf_sz - 1) [Bytes [65]] = (1, [65], [])"
    by (simp add: buf_sz_def)
  have r2: "read_events (buf_sz - 1) [] = (0, [], [])" by simp
  have run: "try_block ?E ?s = (Return None, snd (main ?E ?s))"
    "length ?H = 4" "written (trace (snd (main ?E ?s))) = [65, 0, 0, 0]"
    by (simp_all add: main_def try_block_def handlers_def parse_o_path open_input_def argv_def
                  oo convert_loop_step[OF r1] convert_loop_step[OF r2] sys_write_tmp_full
                  publish_def sys_chmod_def sys_rename_def Let_def mode_744)
  have tgt: "''d/out'' = outfile (snd (main ?E ?s))"
    by (simp add: main_outfile parse_o_path)
  have ne: "''d/out'' \<noteq> []" by simp
  have ex: "?f ''d/out'' \<noteq> None \<or> ''d/out'' \<notin> set (temp_names ?E ''d/out'')" by simp
  have rn: "fst (try_block ?E ?s) = Return None"
    unfolding run(1) by (rule fst_conv)
  note T = target_path_is_prior_or_final[OF tgt ne ex]
  have a: "\<forall>g \<in> set (butlast ?H). g ''d/out'' = ?f ''d/out''"
    using T by (rule conjunct1)
  have z: "?H \<noteq> []" "last ?H = fs (snd (main ?E ?s))"
      "fs (snd (main ?E ?s)) ''d/out'' =
         Some \<lparr>content = written (trace (snd (main ?E ?s))), perm = 484\<rparr>"
    using T rn by blast+
  have "(?H ! i) ''d/out'' = ?f ''d/out''" if "i < 3" for i
  proof -
    have "butlast ?H ! i \<in> set (butlast ?H)"
      using that run(2) by (intro nth_mem) simp
    then show ?thesis
      using a that run(2) by (simp add: nth_butlast)
  qed
  from this[of 0] this[of 1] this[of 2]
  have "(?H ! 0) ''d/out'' = ?f ''d/out''" "(?H ! 1) ''d/out'' = ?f ''d/out''"
    "(?H ! 2) ''d/out'' = ?f ''d/out''"
    by simp_all
  moreover have "?H ! 3 = fs (snd (main ?E ?s))"
    using z(1,2) run(2) by (simp add: last_conv_nth)
  ultimately show ?thesis
    using z(3) run(2,3) by simp
qed

text \<open>
  C1 as stated fails when \<^verbatim>\<open>mkstemp\<close> gives the temporary file the name of the output
  path. With \<^verbatim>\<open>-o sconv-aaaaaa\<close>, no such file before the run and two chunks of input,
  the output path holds the first chunk alone, with mode 0600, after the first write.
  With one chunk and a write that stores two of its four bytes, the run ends with the
  exception, and the output path, absent before the run, holds these two bytes.
\<close>

theorem target_path_counterexample:
  "(hist (snd (main (quiet_env\<lparr>stdin := [Bytes [65], Bytes [66]]\<rparr>)
      (start ''sconv'' [''-o'', ''sconv-aaaaaa''] Map.empty []))) ! 1) ''sconv-aaaaaa'' =
     Some \<lparr>content = [65, 0, 0, 0], perm = 384\<rparr> \<and>
   fs (snd (main (quiet_env\<lparr>stdin := [Bytes [65], Bytes [66]]\<rparr>)
      (start ''sconv'' [''-o'', ''sconv-aaaaaa''] Map.empty []))) ''sconv-aaaaaa'' =
     Some \<lparr>content = [65, 0, 0, 0, 66, 0, 0, 0], perm = 484\<rparr> \<and>
   stderr (snd (main (quiet_env\<lparr>stdin := [Bytes [65], Bytes [66]]\<rparr>)
      (start ''sconv'' [''-o'', ''sconv-aaaaaa''] Map.empty []))) = ''Written: 8 bytes'' @ nl \<and>
   fs (snd (main (quiet_env\<lparr>stdin := [Bytes [65]]\<rparr>)
      (start ''sconv'' [''-o'', ''sconv-aaaaaa''] Map.empty [Wr_short 2]))) ''sconv-aaaaaa'' =
     Some \<lparr>content = [65, 0], perm = 384\<rparr> \<and>
   stderr (snd (main (quiet_env\<lparr>stdin := [Bytes [65]]\<rparr>)
      (start ''sconv'' [''-o'', ''sconv-aaaaaa''] Map.empty [Wr_short 2]))) =
     ''Exception: '' @ fatal_messages ! 1 @ nl"
proof -
  let ?t = "''sconv-aaaaaa''"
  let ?E = "quiet_env\<lparr>stdin := [Bytes [65], Bytes [66]]\<rparr>"
  let ?s2 = "(start ''sconv'' [] Map.empty [])\<lparr>outfile := ?t, taken := [''-o'', ?t]\<rparr>"
  let ?s3 = "set_fs ((fs ?s2)(?t \<mapsto> \<lparr>content = [], perm = 384\<rparr>))
               (log (Sys_mkstemp ''sconv-XXXXXX'') ?s2)"
  let ?F = "quiet_env\<lparr>stdin := [Bytes [65]]\<rparr>"
  let ?u2 = "(start ''sconv'' [] Map.empty [Wr_short 2])\<lparr>outfile := ?t, taken := [''-o'', ?t]\<rparr>"
  let ?u3 = "set_fs ((fs ?u2)(?t \<mapsto> \<lparr>content = [], perm = 384\<rparr>))
               (log (Sys_mkstemp ''sconv-XXXXXX'') ?u2)"
  have m: "sys_mkstemp ?E ''sconv-XXXXXX'' ?s2 = (Some ?t, ?s3)"
    using mkstemp_first_name[of ?E "[]" ?s2 "''sconv-''"] by simp
  have oo: "open_output ?E ?s2 = (Some (Tmp_fd ?t, ?t), ?s3)"
    by (simp add: open_output_def m)
  have n: "sys_mkstemp ?F ''sconv-XXXXXX'' ?u2 = (Some ?t, ?u3)"
    using mkstemp_first_name[of ?F "[]" ?u2 "''sconv-''"] by simp
  have ou: "open_output ?F ?u2 = (Some (Tmp_fd ?t, ?t), ?u3)"
    by (simp add: open_output_def n)
  have r0: "read_events (buf_sz - 1) [Bytes [65], Bytes [66]] = (1, [65], [Bytes [66]])"
    by (simp add: buf_sz_def)
  have r1: "read_events (buf_sz - 1) [Bytes [66]] = (1, [66], [])"
    by (simp add: buf_sz_def)
  have r2: "read_events (buf_sz - 1) [] = (0, [], [])" by simp
  have r3: "read_events (buf_sz - 1) [Bytes [65]] = (1, [65], [])"
    by (simp add: buf_sz_def)
  have sh: "show_int 8 = ''8''"
    by (simp add: show_int_def)
  have a: "(hist (snd (main ?E (start ''sconv'' [''-o'', ?t] Map.empty []))) ! 1) ?t =
             Some \<lparr>content = [65, 0, 0, 0], perm = 384\<rparr>"
    "fs (snd (main ?E (start ''sconv'' [''-o'', ?t] Map.empty []))) ?t =
       Some \<lparr>content = [65, 0, 0, 0, 66, 0, 0, 0], perm = 484\<rparr>"
    "stderr (snd (main ?E (start ''sconv'' [''-o'', ?t] Map.empty []))) = ''Written: 8 bytes'' @ nl"
    by (simp_all add: main_def try_block_def handlers_def parse_o_path open_input_def argv_def
                  oo convert_loop_step[OF r0] convert_loop_step[OF r1] convert_loop_step[OF r2]
                  sys_write_tmp_full sh
                  publish_def sys_chmod_def sys_rename_def Let_def mode_744)
  have b: "fs (snd (main ?F (start ''sconv'' [''-o'', ?t] Map.empty [Wr_short 2]))) ?t =
             Some \<lparr>content = [65, 0], perm = 384\<rparr>"
    "stderr (snd (main ?F (start ''sconv'' [''-o'', ?t] Map.empty [Wr_short 2]))) =
       ''Exception: '' @ fatal_messages ! 1 @ nl"
    by (simp_all add: main_def try_block_def handlers_def parse_o_path open_input_def argv_def
                  ou convert_loop_step[OF r3] sys_write_tmp_short fatal_messages_def)
  show ?thesis
    using a b by simp
qed

end
